theory Spec2Isabelle
  imports Complex_Main
begin

section \<open>Python values: exceptions, floats, arrays\<close>

text \<open>
  An exception is its Python class and its message. The only exception the module raises
  itself is \<open>ValueError("Unsupported sampling distribution.")\<close> (\<open>random_generator\<close>);
  every other one is raised inside numpy or scipy by an argument check, and is modelled
  where the library function is (the library's longer messages are shortened).
\<close>

datatype exn =
    ValueError string
  | RuntimeError string
  | OverflowError string
  | IndexError string
  | AxisError string
  | TypeError string

text \<open>
  A float64 is a real number or one of the three special values. Arithmetic on finite
  values is exact here (no rounding and no overflow); a division by zero gives the IEEE
  result, as numpy's array arithmetic does (it warns and goes on).
\<close>

datatype float64 = Finite real | PosInf | NegInf | NaN

fun is_finite :: "float64 \<Rightarrow> bool" where
  "is_finite (Finite x) = True"
| "is_finite PosInf = False"
| "is_finite NegInf = False"
| "is_finite NaN = False"

fun fneg :: "float64 \<Rightarrow> float64" where
  "fneg (Finite x) = Finite (- x)"
| "fneg PosInf = NegInf"
| "fneg NegInf = PosInf"
| "fneg NaN = NaN"

fun fadd :: "float64 \<Rightarrow> float64 \<Rightarrow> float64" where
  "fadd (Finite x) (Finite y) = Finite (x + y)"
| "fadd NaN y = NaN"
| "fadd x NaN = NaN"
| "fadd PosInf NegInf = NaN"
| "fadd NegInf PosInf = NaN"
| "fadd PosInf y = PosInf"
| "fadd NegInf y = NegInf"
| "fadd x PosInf = PosInf"
| "fadd x NegInf = NegInf"

definition fsub :: "float64 \<Rightarrow> float64 \<Rightarrow> float64" where
  "fsub x y = fadd x (fneg y)"

fun fsign :: "float64 \<Rightarrow> int" where
  "fsign (Finite x) = (if x < 0 then - 1 else if x = 0 then 0 else 1)"
| "fsign PosInf = 1"
| "fsign NegInf = - 1"
| "fsign NaN = 0"

fun fmul :: "float64 \<Rightarrow> float64 \<Rightarrow> float64" where
  "fmul (Finite x) (Finite y) = Finite (x * y)"
| "fmul NaN y = NaN"
| "fmul x NaN = NaN"
| "fmul x y =
     (if fsign x * fsign y = 0 then NaN
      else if fsign x * fsign y > 0 then PosInf else NegInf)"

fun fdiv :: "float64 \<Rightarrow> float64 \<Rightarrow> float64" where
  "fdiv NaN y = NaN"
| "fdiv x NaN = NaN"
| "fdiv (Finite x) (Finite y) =
     (if y \<noteq> 0 then Finite (x / y)
      else if x = 0 then NaN else if x > 0 then PosInf else NegInf)"
| "fdiv (Finite x) y = Finite 0"
| "fdiv x (Finite y) =
     (if fsign x * (if y < 0 then - 1 else 1) > 0 then PosInf else NegInf)"
| "fdiv x y = NaN"

text \<open>
  An n-dimensional array is its shape and its elements in row-major (C) order. An int64
  array is stored with its values as exact floats.
\<close>

record 'a ndarray =
  shape :: "nat list"
  flat :: "'a list"

definition ndim :: "'a ndarray \<Rightarrow> nat" where
  "ndim a = length (shape a)"

definition wf_array :: "'a ndarray \<Rightarrow> bool" where
  "wf_array a \<longleftrightarrow> length (flat a) = prod_list (shape a)"

text \<open>All multi-indices of a shape, in row-major order, and the position of one of them.\<close>

primrec indices :: "nat list \<Rightarrow> nat list list" where
  "indices [] = [[]]"
| "indices (n # s) = concat (map (\<lambda>i. map ((#) i) (indices s)) [0..<n])"

fun flat_index :: "nat list \<Rightarrow> nat list \<Rightarrow> nat" where
  "flat_index (n # s) (i # idx) = i * prod_list s + flat_index s idx"
| "flat_index s idx = 0"

definition valid_index :: "nat list \<Rightarrow> nat list \<Rightarrow> bool" where
  "valid_index s idx \<longleftrightarrow> list_all2 (<) idx s"

definition get :: "'a ndarray \<Rightarrow> nat list \<Rightarrow> 'a" where
  "get a idx = flat a ! flat_index (shape a) idx"

definition tabulate :: "nat list \<Rightarrow> (nat list \<Rightarrow> 'a) \<Rightarrow> 'a ndarray" where
  "tabulate s f = \<lparr>shape = s, flat = map f (indices s)\<rparr>"


section \<open>numpy and scipy: the array functions the module calls\<close>

text \<open>
  \<open>np.flip(a, axis)\<close>: the element at position \<open>i\<close> along the axis is the one that was at
  \<open>n - 1 - i\<close>; a negative axis counts from the last one; an axis outside
  \<open>[-ndim, ndim)\<close> raises \<open>AxisError\<close>.
\<close>

definition mirror :: "nat list \<Rightarrow> nat \<Rightarrow> nat list \<Rightarrow> nat list" where
  "mirror s k idx = idx[k := s ! k - 1 - idx ! k]"

definition flip_axis :: "nat \<Rightarrow> 'a ndarray \<Rightarrow> 'a ndarray" where
  "flip_axis k a = tabulate (shape a) (\<lambda>idx. get a (mirror (shape a) k idx))"

definition np_flip :: "'a ndarray \<Rightarrow> int \<Rightarrow> exn + 'a ndarray" where
  "np_flip a axis =
     (let n = int (ndim a) in
      if - n \<le> axis \<and> axis < n
      then Inr (flip_axis (nat (if axis < 0 then axis + n else axis)) a)
      else Inl (AxisError ''axis is out of bounds for array''))"

text \<open>
  \<open>a.reshape(newshape)\<close>: one entry of the new shape may be \<open>-1\<close> and is then computed from
  the number of elements; the elements keep their row-major order.
\<close>

definition np_reshape :: "'a ndarray \<Rightarrow> int list \<Rightarrow> exn + 'a ndarray" where
  "np_reshape a newshape =
     (let total = int (prod_list (shape a));
          known = prod_list (filter (\<lambda>d. d \<noteq> - 1) newshape);
          unknown = length (filter (\<lambda>d. d = - 1) newshape)
      in if list_ex (\<lambda>d. d < - 1) newshape
         then Inl (ValueError ''negative dimensions not allowed'')
         else if unknown > 1 then Inl (ValueError ''can only specify one unknown dimension'')
         else if unknown = 1 then
           (if known = 0 then Inl (ValueError ''cannot reshape array'')
            else if total mod known \<noteq> 0 then Inl (ValueError ''cannot reshape array'')
            else Inr \<lparr>shape = map (\<lambda>d. nat (if d = - 1 then total div known else d)) newshape,
                      flat = flat a\<rparr>)
         else if known = total then Inr \<lparr>shape = map nat newshape, flat = flat a\<rparr>
         else Inl (ValueError ''cannot reshape array''))"

text \<open>\<open>len(a)\<close> and \<open>a.shape[-1]\<close>.\<close>

definition np_len :: "'a ndarray \<Rightarrow> exn + nat" where
  "np_len a = (case shape a of [] \<Rightarrow> Inl (TypeError ''len() of unsized object'') | n # s \<Rightarrow> Inr n)"

definition shape_last :: "'a ndarray \<Rightarrow> exn + nat" where
  "shape_last a =
     (if shape a = [] then Inl (IndexError ''tuple index out of range'') else Inr (last (shape a)))"

text \<open>
  \<open>np.asarray\<close> of a list of arrays stacks them along a new first axis; the arrays must
  have one shape.
\<close>

definition np_asarray :: "'a ndarray list \<Rightarrow> exn + 'a ndarray" where
  "np_asarray vs =
     (case vs of
        [] \<Rightarrow> Inr \<lparr>shape = [0], flat = []\<rparr>
      | v # rest \<Rightarrow>
          if list_all (\<lambda>u. shape u = shape v) rest
          then Inr \<lparr>shape = length vs # shape v, flat = concat (map flat vs)\<rparr>
          else Inl (ValueError ''setting an array element with a sequence''))"

text \<open>
  \<open>a.transpose(axes)\<close>: axis \<open>j\<close> of the result is axis \<open>axes[j]\<close> of \<open>a\<close>; \<open>axes\<close> must be a
  permutation of \<open>0, ..., ndim - 1\<close>.
\<close>

primrec index_of :: "nat list \<Rightarrow> nat \<Rightarrow> nat" where
  "index_of [] m = 0"
| "index_of (x # xs) m = (if x = m then 0 else Suc (index_of xs m))"

definition np_transpose :: "'a ndarray \<Rightarrow> nat list \<Rightarrow> exn + 'a ndarray" where
  "np_transpose a axes =
     (if length axes = ndim a \<and> distinct axes \<and> list_all (\<lambda>k. k < ndim a) axes
      then Inr (tabulate (map ((!) (shape a)) axes)
                  (\<lambda>idx. get a (map (\<lambda>m. idx ! index_of axes m) [0..<ndim a])))
      else Inl (ValueError ''axes do not match array''))"

text \<open>
  \<open>np.arange(n)\<close>, and \<open>np.meshgrid(*xs)\<close> with its default \<open>indexing='xy'\<close>: output \<open>d\<close>
  repeats \<open>xs[d]\<close> along axis \<open>d\<close>, except that the first two axes are swapped when there
  are two inputs or more.
\<close>

definition np_arange :: "nat \<Rightarrow> float64 ndarray" where
  "np_arange n = \<lparr>shape = [n], flat = map (\<lambda>i. Finite (real i)) [0..<n]\<rparr>"

fun swap01 :: "'a list \<Rightarrow> 'a list" where
  "swap01 (a # b # r) = b # a # r"
| "swap01 r = r"

definition swap_pos :: "nat \<Rightarrow> nat \<Rightarrow> nat" where
  "swap_pos k d = (if k \<ge> 2 then (if d = 0 then 1 else if d = 1 then 0 else d) else d)"

definition np_meshgrid :: "'a ndarray list \<Rightarrow> 'a ndarray list" where
  "np_meshgrid xs =
     (let s = swap01 (map (\<lambda>x. length (flat x)) xs)
      in map (\<lambda>d. tabulate s (\<lambda>idx. flat (xs ! d) ! (idx ! swap_pos (length xs) d)))
           [0..<length xs])"

text \<open>\<open>a.max()\<close>: a \<open>NaN\<close> element makes the maximum \<open>NaN\<close>; an empty array raises.\<close>

fun fmax2 :: "float64 \<Rightarrow> float64 \<Rightarrow> float64" where
  "fmax2 (Finite x) (Finite y) = Finite (max x y)"
| "fmax2 NaN y = NaN"
| "fmax2 x NaN = NaN"
| "fmax2 PosInf y = PosInf"
| "fmax2 x PosInf = PosInf"
| "fmax2 NegInf y = y"
| "fmax2 x NegInf = x"

definition np_max :: "float64 ndarray \<Rightarrow> exn + float64" where
  "np_max v =
     (case flat v of
        [] \<Rightarrow> Inl (ValueError ''zero-size array to reduction operation maximum which has no identity'')
      | x # xs \<Rightarrow> Inr (fold fmax2 xs x))"

text \<open>Arithmetic between an array and a scalar, and between two arrays of one shape.\<close>

definition np_map :: "('a \<Rightarrow> 'a) \<Rightarrow> 'a ndarray \<Rightarrow> 'a ndarray" where
  "np_map f v = v\<lparr>flat := map f (flat v)\<rparr>"

definition np_map2 :: "('a \<Rightarrow> 'a \<Rightarrow> 'a) \<Rightarrow> 'a ndarray \<Rightarrow> 'a ndarray \<Rightarrow> exn + 'a ndarray" where
  "np_map2 f va vb =
     (if shape va = shape vb then Inr (va\<lparr>flat := map2 f (flat va) (flat vb)\<rparr>)
      else Inl (ValueError ''operands could not be broadcast together''))"

text \<open>\<open>a[0]\<close> on a one-dimensional array, read as a Python integer.\<close>

fun to_int :: "float64 \<Rightarrow> int" where
  "to_int (Finite x) = \<lfloor>x\<rfloor>"
| "to_int x = 0"

definition item0 :: "float64 ndarray \<Rightarrow> exn + int" where
  "item0 v =
     (case flat v of
        [] \<Rightarrow> Inl (IndexError ''index 0 is out of bounds for axis 0 with size 0'')
      | x # xs \<Rightarrow> Inr (to_int x))"

section \<open>The interpreter state: the global generator and the array objects\<close>

text \<open>
  numpy's legacy generator \<open>np.random\<close> is one process-wide state \<open>rng\<close>.
  \<open>np.random.seed(None)\<close> replaces it by a state read from the operating system's
  entropy: \<open>urandom\<close> is the sequence of those states still to come.

  Array objects live in \<open>heap\<close>; a reference is a position in it. An array is an object of
  the heap when a variable of the module is bound to it or when it is an argument or the
  result of one of the package's functions; the value of a subexpression that no variable
  holds is a plain value, and so is the list \<open>ranges\<close> of index vectors, which only
  \<open>np.meshgrid\<close> reads. The augmented assignments \<open>/=\<close>, \<open>*=\<close> and \<open>+=\<close> overwrite the
  object their left operand refers to. A view (the result of \<open>transpose\<close>, \<open>reshape\<close> or
  \<open>np.flip\<close>) is modelled as a new object with the same elements: the module applies its
  augmented assignments only to objects just returned by a call that builds a new array,
  never to a view.
\<close>

record 'g world =
  rng :: 'g
  urandom :: "nat \<Rightarrow> 'g"
  heap :: "float64 ndarray list"

type_synonym ('g, 'r) py = "'g world \<Rightarrow> (exn + 'r) \<times> 'g world"

definition ret :: "'r \<Rightarrow> ('g, 'r) py" where
  "ret x w = (Inr x, w)"

definition raise :: "exn \<Rightarrow> ('g, 'r) py" where
  "raise e w = (Inl e, w)"

definition and_then :: "('g, 'r) py \<Rightarrow> ('r \<Rightarrow> ('g, 'q) py) \<Rightarrow> ('g, 'q) py" where
  "and_then m f w = (case m w of (Inl e, w') \<Rightarrow> (Inl e, w') | (Inr x, w') \<Rightarrow> f x w')"

definition lift :: "exn + 'r \<Rightarrow> ('g, 'r) py" where
  "lift r = (case r of Inl e \<Rightarrow> raise e | Inr x \<Rightarrow> ret x)"

definition alloc :: "float64 ndarray \<Rightarrow> ('g, nat) py" where
  "alloc a w = (Inr (length (heap w)), w\<lparr>heap := heap w @ [a]\<rparr>)"

definition deref :: "nat \<Rightarrow> ('g, float64 ndarray) py" where
  "deref r w = (Inr (heap w ! r), w)"

definition store :: "nat \<Rightarrow> float64 ndarray \<Rightarrow> ('g, unit) py" where
  "store r a w = (Inr (), w\<lparr>heap := (heap w)[r := a]\<rparr>)"

text \<open>
  A statement \<open>x = f(a)\<close>, \<open>x = f(a, b)\<close> or \<open>x = f(a, b, c)\<close> with a library function that
  reads its array arguments and returns a new array, and a statement \<open>x op= ...\<close>.
\<close>

definition call1 :: "(float64 ndarray \<Rightarrow> exn + float64 ndarray) \<Rightarrow> nat \<Rightarrow> ('g, nat) py" where
  "call1 f a = and_then (deref a) (\<lambda>va. and_then (lift (f va)) alloc)"

definition call2 ::
  "(float64 ndarray \<Rightarrow> float64 ndarray \<Rightarrow> exn + float64 ndarray) \<Rightarrow> nat \<Rightarrow> nat \<Rightarrow> ('g, nat) py" where
  "call2 f a b =
     and_then (deref a) (\<lambda>va. and_then (deref b) (\<lambda>vb. and_then (lift (f va vb)) alloc))"

definition call3 ::
  "(float64 ndarray \<Rightarrow> float64 ndarray \<Rightarrow> float64 ndarray \<Rightarrow> exn + float64 ndarray)
     \<Rightarrow> nat \<Rightarrow> nat \<Rightarrow> nat \<Rightarrow> ('g, nat) py" where
  "call3 f a b c =
     and_then (deref a) (\<lambda>va. and_then (deref b) (\<lambda>vb. and_then (deref c) (\<lambda>vc.
     and_then (lift (f va vb vc)) alloc)))"

definition inplace :: "(float64 ndarray \<Rightarrow> exn + float64 ndarray) \<Rightarrow> nat \<Rightarrow> ('g, unit) py" where
  "inplace f a = and_then (deref a) (\<lambda>va. and_then (lift (f va)) (store a))"

text \<open>
  The numeric kernels of numpy and scipy are parameters, and so are the functions that the
  module imports from its siblings \<open>transform\<close> and \<open>utils\<close> (\<open>interval\<close>, \<open>compose\<close>,
  \<open>affine_flow\<close> and the field that \<open>gaussian_random_field\<close> computes from the generator):
  what is modelled is the module's own control flow, seeding and argument passing, and
  the argument checks of the library functions it calls.
\<close>

datatype interval_arg = Magnitude float64 | Bounds float64 float64

record 'g lib =
  init_by_seed :: "int \<Rightarrow> 'g"
  next_double :: "'g \<Rightarrow> real \<times> 'g"
  next_below :: "nat \<Rightarrow> 'g \<Rightarrow> nat \<times> 'g"
  next_lognormal :: "real \<Rightarrow> real \<Rightarrow> 'g \<Rightarrow> real \<times> 'g"
  euler_xyz :: "float64 list \<Rightarrow> nat list \<Rightarrow> float64"
  spline_at :: "int \<Rightarrow> float64 \<Rightarrow> float64 ndarray \<Rightarrow> float64 list \<Rightarrow> float64"
  interval_fn :: "interval_arg \<Rightarrow> exn + float64 \<times> float64"
  compose_fn :: "float64 ndarray \<Rightarrow> float64 ndarray \<Rightarrow> float64 ndarray \<Rightarrow> exn + float64 ndarray"
  affine_flow_fn :: "float64 ndarray \<Rightarrow> nat list \<Rightarrow> exn + float64 ndarray"
  random_field :: "nat list \<Rightarrow> real \<Rightarrow> bool \<Rightarrow> 'g \<Rightarrow> (nat list \<Rightarrow> float64) \<times> 'g"

text \<open>
  \<open>np.random.seed(seed)\<close>: with an integer in \<open>[0, 2**32)\<close> the state becomes a function
  of the seed alone; another integer raises; with \<open>None\<close> the state is fresh entropy.
\<close>

definition np_random_seed :: "'g lib \<Rightarrow> int option \<Rightarrow> ('g, unit) py" where
  "np_random_seed lib seed w =
     (case seed of
        None \<Rightarrow> (Inr (), w\<lparr>rng := urandom w 0, urandom := (\<lambda>n. urandom w (Suc n))\<rparr>)
      | Some s \<Rightarrow>
          if 0 \<le> s \<and> s < 2 ^ 32 then (Inr (), w\<lparr>rng := init_by_seed lib s\<rparr>)
          else (Inl (ValueError ''Seed must be between 0 and 2**32 - 1''), w))"

fun draws :: "('g \<Rightarrow> 'a \<times> 'g) \<Rightarrow> nat \<Rightarrow> 'g \<Rightarrow> 'a list \<times> 'g" where
  "draws f 0 g = ([], g)"
| "draws f (Suc n) g =
     (let (x, g1) = f g; (xs, g2) = draws f n g1 in (x # xs, g2))"

text \<open>
  \<open>np.random.uniform(low, high, size)\<close>: each value is \<open>low + (high - low) * u\<close> with \<open>u\<close>
  the generator's next double. \<open>np.random.randint(low, high, size)\<close> and
  \<open>np.random.lognormal(mean, sigma, size)\<close> draw \<open>size\<close> values one after the other.
\<close>

definition np_random_uniform ::
  "'g lib \<Rightarrow> float64 \<Rightarrow> float64 \<Rightarrow> nat \<Rightarrow> ('g, float64 ndarray) py" where
  "np_random_uniform lib low high sz w =
     (if is_finite (fsub high low) then
        (let (us, g) = draws (next_double lib) sz (rng w)
         in (Inr \<lparr>shape = [sz],
                  flat = map (\<lambda>u. fadd low (fmul (fsub high low) (Finite u))) us\<rparr>,
             w\<lparr>rng := g\<rparr>))
      else (Inl (OverflowError ''Range exceeds valid bounds''), w))"

definition np_random_randint ::
  "'g lib \<Rightarrow> int \<Rightarrow> int \<Rightarrow> nat \<Rightarrow> ('g, float64 ndarray) py" where
  "np_random_randint lib low high sz w =
     (if low \<ge> high then (Inl (ValueError ''low >= high''), w)
      else
        (let (ks, g) = draws (next_below lib (nat (high - low))) sz (rng w)
         in (Inr \<lparr>shape = [sz], flat = map (\<lambda>k. Finite (of_int (low + int k))) ks\<rparr>,
             w\<lparr>rng := g\<rparr>)))"

definition np_random_lognormal ::
  "'g lib \<Rightarrow> real \<Rightarrow> real \<Rightarrow> nat \<Rightarrow> ('g, float64 ndarray) py" where
  "np_random_lognormal lib mean sigma sz w =
     (if sigma < 0 then (Inl (ValueError ''sigma < 0''), w)
      else
        (let (xs, g) = draws (next_lognormal lib mean sigma) sz (rng w)
         in (Inr \<lparr>shape = [sz], flat = map Finite xs\<rparr>, w\<lparr>rng := g\<rparr>)))"

text \<open>
  \<open>Rotation.from_euler("xyz", angles, degrees=True)\<close> takes one angle per axis of the
  sequence: the one-dimensional \<open>angles\<close> that \<open>affine\<close> passes must have three entries.
  \<open>as_matrix()\<close> returns the 3 by 3 rotation matrix.
\<close>

definition Rotation_from_euler_xyz :: "float64 ndarray \<Rightarrow> exn + float64 list" where
  "Rotation_from_euler_xyz angles =
     (if shape angles = [3] then Inr (flat angles)
      else Inl (ValueError
        ''Expected angles to be at most 2-dimensional with width equal to number of axes specified''))"

definition Rotation_as_matrix :: "'g lib \<Rightarrow> float64 list \<Rightarrow> float64 ndarray" where
  "Rotation_as_matrix lib angles = tabulate [3, 3] (euler_xyz lib angles)"

text \<open>
  \<open>scipy.ndimage.map_coordinates(input, coordinates, order, cval)\<close>: its argument checks in
  their order, then one interpolated value for each column of \<open>coordinates\<close>.
\<close>

definition map_coordinates ::
  "'g lib \<Rightarrow> float64 ndarray \<Rightarrow> float64 ndarray \<Rightarrow> int \<Rightarrow> float64 \<Rightarrow> exn + float64 ndarray" where
  "map_coordinates lib input coordinates order cval =
     (if order < 0 \<or> order > 5 then Inl (RuntimeError ''spline order not supported'')
      else if ndim input < 1 \<or> length (tl (shape coordinates)) < 1
      then Inl (RuntimeError ''input and output rank must be > 0'')
      else if hd (shape coordinates) \<noteq> ndim input
      then Inl (RuntimeError ''invalid shape for coordinate array'')
      else Inr (tabulate (tl (shape coordinates))
                 (\<lambda>idx. spline_at lib order cval input
                    (map (\<lambda>d. get coordinates (d # idx)) [0..<ndim input]))))"

section \<open>The module \<open>pynet.augmentation.spatial\<close>\<close>

definition random_generator ::
  "'g lib \<Rightarrow> float64 \<times> float64 \<Rightarrow> nat \<Rightarrow> string \<Rightarrow> int option \<Rightarrow> ('g, nat) py" where
  "random_generator lib interval sz distr seed =
     (if distr = ''uniform'' then
        and_then (np_random_seed lib seed) (\<lambda>_.
        and_then (np_random_uniform lib (fst interval) (snd interval) sz) alloc)
      else if distr = ''lognormal'' then
        and_then (np_random_seed lib seed) (\<lambda>_.
        and_then (np_random_randint lib 0 2 sz) (\<lambda>r.
        and_then (alloc (np_map (\<lambda>x. fsub x (Finite 1)) (np_map (\<lambda>x. fmul x (Finite 2)) r))) (\<lambda>sign.
        and_then (call1 Inr sign) (\<lambda>sign.
        and_then (np_random_seed lib seed) (\<lambda>_.
        and_then (and_then (np_random_lognormal lib 0 1 sz) alloc) (\<lambda>random_variables.
        and_then (inplace (\<lambda>v. Inr (np_map (\<lambda>x. fdiv x (Finite 12.5)) v)) random_variables) (\<lambda>_.
        and_then (deref sign) (\<lambda>s.
        and_then (inplace (\<lambda>v. np_map2 fmul v (np_map (\<lambda>x. fmul x (snd interval)) s))
                    random_variables) (\<lambda>_.
        ret random_variables)))))))))
      else raise (ValueError ''Unsupported sampling distribution.''))"

text \<open>
  Both \<open>affine\<close> and \<open>deformation\<close> end with the same two statements,
  \<open>transformed = map_coordinates(arr, locs, order=order, cval=0)\<close> and
  \<open>return transformed.reshape(shape)\<close>: they are \<open>resample\<close>. What comes before them
  computes the sampling coordinates \<open>locs\<close>.
\<close>

definition resample :: "'g lib \<Rightarrow> nat \<Rightarrow> nat \<Rightarrow> int \<Rightarrow> nat list \<Rightarrow> ('g, nat) py" where
  "resample lib arr locs order shp =
     and_then (call2 (\<lambda>i c. map_coordinates lib i c order (Finite 0)) arr locs) (\<lambda>transformed.
     call1 (\<lambda>t. np_reshape t (map int shp)) transformed)"

text \<open>
  \<open>affine\<close>, lines 57 to 65: the random rotation angles, translation offsets and zoom
  factors, one of each for every axis of the array.
\<close>

definition affine_draws ::
  "'g lib \<Rightarrow> nat \<Rightarrow> interval_arg \<Rightarrow> interval_arg \<Rightarrow> float64 \<Rightarrow> string \<Rightarrow> int option
     \<Rightarrow> ('g, nat \<times> nat \<times> nat) py" where
  "affine_draws lib arr rotation translation zoom distr seed =
     and_then (lift (interval_fn lib rotation)) (\<lambda>rotation.
     and_then (lift (interval_fn lib translation)) (\<lambda>translation.
     and_then (deref arr) (\<lambda>a.
     and_then (random_generator lib rotation (ndim a) distr seed) (\<lambda>random_rotations.
     and_then (deref arr) (\<lambda>a.
     and_then (random_generator lib translation (ndim a) distr seed) (\<lambda>random_translations.
     and_then (np_random_seed lib seed) (\<lambda>_.
     and_then (deref arr) (\<lambda>a.
     and_then (and_then (np_random_uniform lib (fsub (Finite 1) zoom) (fadd (Finite 1) zoom) (ndim a))
                 alloc) (\<lambda>random_zooms.
     ret (random_rotations, random_translations, random_zooms))))))))))"

text \<open>\<open>affine\<close>, lines 66 to 72: the variables \<open>shape\<close> and \<open>locs\<close>.\<close>

definition affine_locs ::
  "'g lib \<Rightarrow> nat \<Rightarrow> interval_arg \<Rightarrow> interval_arg \<Rightarrow> float64 \<Rightarrow> string \<Rightarrow> int option
     \<Rightarrow> ('g, nat list \<times> nat) py" where
  "affine_locs lib arr rotation translation zoom distr seed =
     and_then (affine_draws lib arr rotation translation zoom distr seed) (\<lambda>drawn.
     and_then (deref (fst drawn)) (\<lambda>angles.
     and_then (lift (Rotation_from_euler_xyz angles)) (\<lambda>rotation_object.
     and_then (alloc (Rotation_as_matrix lib rotation_object)) (\<lambda>random_rotations.
     and_then (call3 (compose_fn lib) (fst (snd drawn)) random_rotations (snd (snd drawn)))
       (\<lambda>affine_matrix.
     and_then (deref arr) (\<lambda>a.
     and_then (call1 (\<lambda>m. affine_flow_fn lib m (shape a)) affine_matrix) (\<lambda>flow.
     and_then (call1 (\<lambda>f. np_reshape f [int (length (shape a)), - 1]) flow) (\<lambda>locs.
     ret (shape a, locs)))))))))"

definition affine ::
  "'g lib \<Rightarrow> nat \<Rightarrow> interval_arg \<Rightarrow> interval_arg \<Rightarrow> float64 \<Rightarrow> int \<Rightarrow> string \<Rightarrow> int option
     \<Rightarrow> ('g, nat) py" where
  "affine lib arr rotation translation zoom order distr seed =
     and_then (affine_locs lib arr rotation translation zoom distr seed) (\<lambda>p.
     resample lib arr (snd p) order (fst p))"

definition flip :: "'g lib \<Rightarrow> nat \<Rightarrow> int option \<Rightarrow> int option \<Rightarrow> ('g, nat) py" where
  "flip lib arr axis seed =
     and_then
       (case axis of
          None \<Rightarrow>
            and_then (np_random_seed lib seed) (\<lambda>_.
            and_then (deref arr) (\<lambda>a.
            and_then (np_random_randint lib 0 (int (ndim a)) 1) (\<lambda>r.
            lift (item0 r))))
        | Some k \<Rightarrow> ret k)
       (\<lambda>axis. call1 (\<lambda>a. np_flip a axis) arr)"

text \<open>
  Modelled from the spec: \<open>gaussian_random_field\<close> is in the sibling module \<open>transform\<close>,
  which is not among the sources. By section 4.4 of the specification it generates one
  two-dimensional random scalar field of the requested shape, reproducibly from its
  \<open>seed\<close>: it reseeds the global generator with the seed it is given, as
  \<open>random_generator\<close> does, and computes a new array from the generator.
\<close>

definition gaussian_random_field ::
  "'g lib \<Rightarrow> nat list \<Rightarrow> real \<Rightarrow> bool \<Rightarrow> int option \<Rightarrow> ('g, nat) py" where
  "gaussian_random_field lib shp alpha normalize' seed =
     and_then (np_random_seed lib seed) (\<lambda>_ w.
       let (f, g) = random_field lib shp alpha normalize' (rng w)
       in alloc (tabulate shp f) (w\<lparr>rng := g\<rparr>))"

text \<open>
  \<open>deformation\<close>, lines 129 to 132, and again lines 135 to 138 and 141 to 144 with the
  seeds \<open>seed + 2\<close> and \<open>seed + 4\<close>: one field, divided by its maximum and repeated along
  the depth axis. The expression \<open>np.asarray([f] * n).transpose(1, 2, 0)\<close> is
  \<open>broadcast_depth n\<close>.
\<close>

definition broadcast_depth :: "nat \<Rightarrow> float64 ndarray \<Rightarrow> exn + float64 ndarray" where
  "broadcast_depth n f =
     (case np_asarray (replicate n f) of
        Inl e \<Rightarrow> Inl e
      | Inr stacked \<Rightarrow> np_transpose stacked [1, 2, 0])"

definition direction_field :: "'g lib \<Rightarrow> nat \<Rightarrow> real \<Rightarrow> int option \<Rightarrow> ('g, nat) py" where
  "direction_field lib arr alpha seed =
     and_then (deref arr) (\<lambda>a.
     and_then (gaussian_random_field lib (take 2 (shape a)) alpha True seed) (\<lambda>flow_x.
     and_then (and_then (deref flow_x) (\<lambda>v. lift (np_max v))) (\<lambda>m.
     and_then (inplace (\<lambda>v. Inr (np_map (\<lambda>x. fdiv x m) v)) flow_x) (\<lambda>_.
     and_then (lift (shape_last a)) (\<lambda>depth.
     call1 (broadcast_depth depth) flow_x)))))"

text \<open>\<open>deformation\<close>, lines 128 to 146: the displacement field \<open>flow\<close>.\<close>

definition deformation_flow ::
  "'g lib \<Rightarrow> nat \<Rightarrow> float64 \<Rightarrow> real \<Rightarrow> int option \<Rightarrow> ('g, nat) py" where
  "deformation_flow lib arr max_displacement alpha seed =
     and_then (direction_field lib arr alpha seed) (\<lambda>flow_x.
     and_then (direction_field lib arr alpha (map_option (\<lambda>s. s + 2) seed)) (\<lambda>flow_y.
     and_then (direction_field lib arr alpha (map_option (\<lambda>s. s + 4) seed)) (\<lambda>flow_z.
     and_then (call3 (\<lambda>x y z. np_asarray [x, y, z]) flow_x flow_y flow_z) (\<lambda>flow.
     and_then (inplace (\<lambda>v. Inr (np_map (\<lambda>x. fmul x max_displacement) v)) flow) (\<lambda>_.
     ret flow)))))"

text \<open>
  \<open>deformation\<close>, lines 147 to 150: the coordinate grid of the array's shape, displaced by
  \<open>flow\<close>, as the sampling coordinates \<open>locs\<close>; then the resampling.
\<close>

definition coordinate_grid :: "nat list \<Rightarrow> exn + float64 ndarray" where
  "coordinate_grid shp =
     (case np_asarray (np_meshgrid (map np_arange shp)) of
        Inl e \<Rightarrow> Inl e
      | Inr grid \<Rightarrow> np_transpose grid [0, 2, 1, 3])"

definition deformation_locs ::
  "'g lib \<Rightarrow> nat \<Rightarrow> float64 \<Rightarrow> real \<Rightarrow> int option \<Rightarrow> ('g, nat) py" where
  "deformation_locs lib arr max_displacement alpha seed =
     and_then (deformation_flow lib arr max_displacement alpha seed) (\<lambda>flow.
     and_then (deref arr) (\<lambda>a.
     and_then (and_then (lift (coordinate_grid (shape a))) alloc) (\<lambda>locs.
     and_then (deref flow) (\<lambda>f.
     and_then (inplace (\<lambda>v. np_map2 fadd v f) locs) (\<lambda>_.
     call1 (\<lambda>l. case np_len l of Inl e \<Rightarrow> Inl e
                | Inr n \<Rightarrow> np_reshape l [int n, - 1]) locs)))))"

definition deformation ::
  "'g lib \<Rightarrow> nat \<Rightarrow> float64 \<Rightarrow> real \<Rightarrow> int \<Rightarrow> int option \<Rightarrow> ('g, nat) py" where
  "deformation lib arr max_displacement alpha order seed =
     and_then (deformation_locs lib arr max_displacement alpha seed) (\<lambda>locs.
     and_then (deref arr) (\<lambda>a.
     resample lib arr locs order (shape a)))"

text \<open>What the caller of a transform observes: the exception, or the array returned.\<close>

definition outcome :: "(exn + nat) \<times> 'g world \<Rightarrow> exn + float64 ndarray" where
  "outcome p = (case fst p of Inl e \<Rightarrow> Inl e | Inr r \<Rightarrow> Inr (heap (snd p) ! r))"

section \<open>A concrete library and concrete arrays\<close>

text \<open>
  One instance of the parameters, for evaluating the module on concrete inputs. The
  generator state is a counter. \<open>interval\<close> follows section 3 of the specification (a
  scalar \<open>v\<close> is the interval \<open>[-v, v]\<close>), the rotation matrix is the identity, the flow
  of \<open>affine_flow\<close> is the coordinate grid itself, the interpolation takes the element at
  the coordinates rounded down (and \<open>cval\<close> outside the array), and every random field is
  \<open>1/2\<close> everywhere but in its column 4, where it is \<open>-2\<close>.
\<close>

definition nearest :: "float64 \<Rightarrow> float64 ndarray \<Rightarrow> float64 list \<Rightarrow> float64" where
  "nearest cval a pt =
     (if list_all (\<lambda>c. 0 \<le> to_int c) pt \<and> valid_index (shape a) (map (\<lambda>c. nat (to_int c)) pt)
      then get a (map (\<lambda>c. nat (to_int c)) pt) else cval)"

definition example_lib :: "nat lib" where
  "example_lib =
     \<lparr>init_by_seed = (\<lambda>s. nat s),
      next_double = (\<lambda>g. (real (g mod 4) / 4, Suc g)),
      next_below = (\<lambda>n g. (g mod n, Suc g)),
      next_lognormal = (\<lambda>mean sigma g. (1 + real (g mod 3), Suc g)),
      euler_xyz = (\<lambda>angles idx. if idx ! 0 = idx ! 1 then Finite 1 else Finite 0),
      spline_at = (\<lambda>order. nearest),
      interval_fn = (\<lambda>i. case i of Magnitude v \<Rightarrow> Inr (fneg v, v) | Bounds l h \<Rightarrow> Inr (l, h)),
      compose_fn = (\<lambda>t r z. Inr (tabulate [4, 4] (\<lambda>idx. if idx ! 0 = idx ! 1 then Finite 1 else Finite 0))),
      affine_flow_fn = (\<lambda>m shp. Inr (tabulate (length shp # shp) (\<lambda>idx. Finite (real (tl idx ! hd idx))))),
      random_field = (\<lambda>shp alpha nrm g. ((\<lambda>idx. if idx ! 1 = 4 then Finite (- 2) else Finite (1 / 2)), Suc g))\<rparr>"

definition example_world :: "float64 ndarray list \<Rightarrow> nat world" where
  "example_world h = \<lparr>rng = 7, urandom = (\<lambda>n. 100 + n), heap = h\<rparr>"

definition arange_array :: "nat list \<Rightarrow> float64 ndarray" where
  "arange_array s = tabulate s (\<lambda>idx. Finite (real (flat_index s idx)))"

section \<open>Two runs of one function\<close>

text \<open>
  Two states are related when their heaps are two given heaps \<open>h1\<close> and \<open>h2\<close> followed
  by one and the same list of newer objects; when \<open>b\<close> holds their generators are in one
  state, and when \<open>u\<close> holds the entropy still to come is the same. Two references are
  related when they refer to the same new object, or to equal objects of \<open>h1\<close> and \<open>h2\<close>.
  Two computations are related when, from related states, both raise the same exception
  or both return related results in related states.
\<close>

definition wrel ::
  "bool \<Rightarrow> float64 ndarray list \<Rightarrow> float64 ndarray list \<Rightarrow> bool
     \<Rightarrow> 'g world \<Rightarrow> 'g world \<Rightarrow> bool" where
  "wrel u h1 h2 b w1 w2 \<longleftrightarrow>
     (\<exists>t. heap w1 = h1 @ t \<and> heap w2 = h2 @ t) \<and> (b \<longrightarrow> rng w1 = rng w2) \<and>
     (u \<longrightarrow> urandom w1 = urandom w2)"

definition nrel :: "float64 ndarray list \<Rightarrow> float64 ndarray list \<Rightarrow> nat \<Rightarrow> nat \<Rightarrow> bool" where
  "nrel h1 h2 r1 r2 \<longleftrightarrow> length h1 \<le> r1 \<and> length h2 \<le> r2 \<and> r1 - length h1 = r2 - length h2"

definition drel :: "float64 ndarray list \<Rightarrow> float64 ndarray list \<Rightarrow> nat \<Rightarrow> nat \<Rightarrow> bool" where
  "drel h1 h2 r1 r2 \<longleftrightarrow>
     nrel h1 h2 r1 r2 \<or> (r1 < length h1 \<and> r2 < length h2 \<and> h1 ! r1 = h2 ! r2)"

definition res_rel ::
  "bool \<Rightarrow> float64 ndarray list \<Rightarrow> float64 ndarray list \<Rightarrow> bool \<Rightarrow> ('r \<Rightarrow> 'q \<Rightarrow> bool)
     \<Rightarrow> (exn + 'r) \<times> 'g world \<Rightarrow> (exn + 'q) \<times> 'g world \<Rightarrow> bool" where
  "res_rel u h1 h2 b' Q p1 p2 \<longleftrightarrow>
     (case fst p1 of
        Inl e1 \<Rightarrow> fst p2 = Inl e1 \<and> wrel u h1 h2 False (snd p1) (snd p2)
      | Inr x1 \<Rightarrow>
          (case fst p2 of
             Inl e2 \<Rightarrow> False
           | Inr x2 \<Rightarrow> Q x1 x2 \<and> wrel u h1 h2 b' (snd p1) (snd p2)))"

definition prel ::
  "bool \<Rightarrow> float64 ndarray list \<Rightarrow> float64 ndarray list \<Rightarrow> bool \<Rightarrow> bool \<Rightarrow> ('r \<Rightarrow> 'q \<Rightarrow> bool)
     \<Rightarrow> ('g, 'r) py \<Rightarrow> ('g, 'q) py \<Rightarrow> bool" where
  "prel u h1 h2 b b' Q m1 m2 \<longleftrightarrow>
     (\<forall>w1 w2. wrel u h1 h2 b w1 w2 \<longrightarrow> res_rel u h1 h2 b' Q (m1 w1) (m2 w2))"

definition triple_rel ::
  "float64 ndarray list \<Rightarrow> float64 ndarray list \<Rightarrow> nat \<times> nat \<times> nat \<Rightarrow> nat \<times> nat \<times> nat
     \<Rightarrow> bool" where
  "triple_rel h1 h2 p1 p2 \<longleftrightarrow>
     nrel h1 h2 (fst p1) (fst p2) \<and> nrel h1 h2 (fst (snd p1)) (fst (snd p2)) \<and>
     nrel h1 h2 (snd (snd p1)) (snd (snd p2))"

text \<open>
  The seeds that \<open>np.random.seed\<close> accepts: \<open>None\<close> and the integers of \<open>[0, 2**32)\<close>.
\<close>

definition valid_seed :: "int option \<Rightarrow> bool" where
  "valid_seed seed = (case seed of None \<Rightarrow> True | Some s \<Rightarrow> 0 \<le> s \<and> s < 2 ^ 32)"

section \<open>Arrays: indices and positions\<close>

lemma length_indices: "length (indices s) = prod_list s"
proof (induction s)
  case Nil
  show ?case by simp
next
  case (Cons n s)
  have "length (concat (map (\<lambda>i. map ((#) i) (indices s)) [0..<n])) = n * prod_list s"
    by (simp add: length_concat comp_def Cons.IH sum_list_triv)
  then show ?case by simp
qed

lemma concat_blocks_upt:
  "concat (map (\<lambda>i. map ((+) (i * p)) [0..<p]) [0..<n]) = [0..<n * p]"
proof (induction n)
  case 0
  show ?case by simp
next
  case (Suc n)
  have a: "[0..<n * p + p] = [0..<n * p] @ [n * p..<n * p + p]"
    using upt_add_eq_append[of 0 "n * p" p] by simp
  have b: "map ((+) (n * p)) [0..<p] = [n * p..<n * p + p]"
    using map_add_upt[of "n * p" p] by (simp add: add.commute[of _ "n * p"])
  have "concat (map (\<lambda>i. map ((+) (i * p)) [0..<p]) [0..<Suc n])
      = concat (map (\<lambda>i. map ((+) (i * p)) [0..<p]) [0..<n]) @ map ((+) (n * p)) [0..<p]"
    by simp
  also have "\<dots> = [0..<n * p] @ [n * p..<n * p + p]"
    by (simp only: Suc.IH b)
  also have "\<dots> = [0..<Suc n * p]" 
    using a by (simp add: add.commute)
  finally show ?case .
qed

lemma flat_index_indices: "map (flat_index s) (indices s) = [0..<prod_list s]"
proof (induction s)
  case Nil
  show ?case by simp
next
  case (Cons n s)
  have "map (flat_index (n # s)) (concat (map (\<lambda>i. map ((#) i) (indices s)) [0..<n]))
        = concat (map (\<lambda>i. map ((+) (i * prod_list s)) (map (flat_index s) (indices s))) [0..<n])"
    by (simp add: map_concat comp_def)
  also have "\<dots> = [0..<n * prod_list s]"
    by (simp add: Cons.IH concat_blocks_upt)
  finally show ?case by simp
qed

lemma valid_index_Nil [simp]: "valid_index [] idx \<longleftrightarrow> idx = []"
  by (simp add: valid_index_def)

lemma valid_index_Cons:
  "valid_index (n # s) idx \<longleftrightarrow> (\<exists>i r. idx = i # r \<and> i < n \<and> valid_index s r)"
  by (cases idx) (auto simp: valid_index_def)

lemma set_indices: "set (indices s) = {idx. valid_index s idx}"
proof (induction s)
  case Nil
  show ?case by auto
next
  case (Cons n s)
  show ?case by (auto simp: valid_index_Cons Cons.IH)
qed

lemma flat_index_less: "valid_index s idx \<Longrightarrow> flat_index s idx < prod_list s"
proof -
  assume "valid_index s idx"
  then have "idx \<in> set (indices s)" by (simp add: set_indices)
  then have "flat_index s idx \<in> set (map (flat_index s) (indices s))" by simp
  then show ?thesis by (simp add: flat_index_indices)
qed

lemma distinct_indices: "distinct (indices s)"
proof -
  have "distinct (map (flat_index s) (indices s))" by (simp add: flat_index_indices)
  then show ?thesis by (simp add: distinct_map)
qed

lemma nth_indices: 
  assumes "valid_index s idx" shows "indices s ! flat_index s idx = idx"
proof -
  let ?k = "flat_index s idx"
  have k: "?k < length (indices s)" using assms by (simp add: flat_index_less length_indices)
  have "map (flat_index s) (indices s) ! ?k = ?k"
    using k by (simp add: flat_index_indices length_indices del: nth_map)
  then have eq: "flat_index s (indices s ! ?k) = flat_index s idx" using k by simp
  have inj: "inj_on (flat_index s) (set (indices s))"
    using flat_index_indices[of s] by (metis distinct_map distinct_upt)
  have "indices s ! ?k \<in> set (indices s)" using k by simp
  moreover have "idx \<in> set (indices s)" using assms by (simp add: set_indices)
  ultimately show ?thesis using inj eq by (auto dest: inj_onD)
qed

lemma get_tabulate: "valid_index s idx \<Longrightarrow> get (tabulate s f) idx = f idx"
  by (simp add: get_def tabulate_def flat_index_less length_indices nth_indices)

lemma tabulate_get: "wf_array a \<Longrightarrow> tabulate (shape a) (get a) = a"
proof -
  assume wf: "wf_array a"
  have "map (get a) (indices (shape a)) = map ((!) (flat a)) (map (flat_index (shape a)) (indices (shape a)))"
    by (simp add: get_def comp_def)
  also have "\<dots> = map ((!) (flat a)) [0..<length (flat a)]"
    using wf by (simp add: flat_index_indices wf_array_def)
  also have "\<dots> = flat a" by (rule map_nth)
  finally show ?thesis by (simp add: tabulate_def)
qed

lemma tabulate_cong:
  "(\<And>idx. valid_index s idx \<Longrightarrow> f idx = g idx) \<Longrightarrow> tabulate s f = tabulate s g"
  by (simp add: tabulate_def set_indices)

lemma valid_index_mirror:
  assumes "valid_index s idx"
  shows "valid_index s (mirror s k idx)"
proof -
  have len: "length idx = length s" and lt: "\<And>i. i < length s \<Longrightarrow> idx ! i < s ! i"
    using assms by (auto simp: valid_index_def list_all2_conv_all_nth)
  have "(idx[k := s ! k - 1 - idx ! k]) ! i < s ! i" if "i < length s" for i
  proof (cases "i = k")
    case True
    have "idx ! k < s ! k" using lt that True by simp
    then have "s ! k - 1 - idx ! k < s ! k" by arith
    then show ?thesis using True that len by simp
  next
    case False
    then show ?thesis using lt that by simp
  qed
  then show ?thesis using len by (simp add: mirror_def valid_index_def list_all2_conv_all_nth)
qed

lemma mirror_twice:
  assumes "valid_index s idx"
  shows "mirror s k (mirror s k idx) = idx"
proof (cases "k < length idx")
  case True
  have "length idx = length s" and "idx ! k < s ! k"
    using assms True by (auto simp: valid_index_def list_all2_conv_all_nth)
  then have "s ! k - 1 - (s ! k - 1 - idx ! k) = idx ! k" by arith
  then show ?thesis using True by (simp add: mirror_def list_update_same_conv)
next
  case False
  then have "length idx \<le> k" by simp
  then show ?thesis by (simp add: mirror_def list_update_beyond)
qed

lemma shape_tabulate [simp]: "shape (tabulate s f) = s"
  by (simp add: tabulate_def)

lemma wf_tabulate [simp]: "wf_array (tabulate s f)"
  by (simp add: tabulate_def wf_array_def length_indices)

lemma flip_axis_involution: "wf_array a \<Longrightarrow> flip_axis k (flip_axis k a) = a"
proof -
  assume wf: "wf_array a"
  let ?s = "shape a"
  have "flip_axis k (flip_axis k a) = tabulate ?s (get a)"
    unfolding flip_axis_def shape_tabulate
    by (rule tabulate_cong) (simp add: get_tabulate valid_index_mirror mirror_twice)
  then show ?thesis using wf by (simp add: tabulate_get)
qed

section \<open>\<open>flip\<close> and \<open>random_generator\<close>\<close>

lemmas py_defs = and_then_def ret_def raise_def lift_def alloc_def deref_def store_def
  call1_def call2_def call3_def inplace_def

lemma flip_Some:
  "0 \<le> k \<Longrightarrow> k < int (ndim (heap w ! arr)) \<Longrightarrow>
   flip lib arr (Some k) seed w =
     (Inr (length (heap w)), w\<lparr>heap := heap w @ [flip_axis (nat k) (heap w ! arr)]\<rparr>)"
  by (simp add: flip_def py_defs np_flip_def)

lemma get_flip_axis:
  "valid_index (shape a) idx \<Longrightarrow> get (flip_axis k a) idx = get a (mirror (shape a) k idx)"
  by (simp add: flip_axis_def get_tabulate)

lemma shape_flip_axis: "shape (flip_axis k a) = shape a"
  by (simp add: flip_axis_def)

lemma set_flat_flip_axis: 
  assumes "wf_array a" shows "set (flat (flip_axis k a)) \<subseteq> set (flat a)"
proof
  fix x assume "x \<in> set (flat (flip_axis k a))"
  then obtain idx where v: "valid_index (shape a) idx" and x: "x = get a (mirror (shape a) k idx)"
    by (auto simp: flip_axis_def tabulate_def set_indices)
  have "flat_index (shape a) (mirror (shape a) k idx) < length (flat a)"
    using v assms by (simp add: valid_index_mirror flat_index_less wf_array_def)
  then show "x \<in> set (flat a)" using x by (simp add: get_def)
qed

text \<open>
  Claim C2. Flipping twice along one axis \<open>k\<close> with \<open>0 \<le> k < ndim\<close> gives back the
  array, element for element: both calls return, the array returned by the second call is
  the input array, and the input object is unchanged. The flip reverses and computes
  nothing: every element of the flipped array is an element of the input.
\<close>

theorem flip_involution:
  assumes "arr < length (heap w)" and "wf_array (heap w ! arr)"
    and "0 \<le> k" and "k < int (ndim (heap w ! arr))"
  shows "\<exists>r1 w1 r2 w2.
           flip lib arr (Some k) s1 w = (Inr r1, w1) \<and>
           flip lib r1 (Some k) s2 w1 = (Inr r2, w2) \<and>
           heap w2 ! r2 = heap w ! arr \<and>
           heap w2 ! arr = heap w ! arr \<and>
           set (flat (heap w1 ! r1)) \<subseteq> set (flat (heap w ! arr))"
proof -
  let ?A = "heap w ! arr"
  let ?w1 = "w\<lparr>heap := heap w @ [flip_axis (nat k) ?A]\<rparr>"
  let ?r1 = "length (heap w)"
  have 1: "flip lib arr (Some k) s1 w = (Inr ?r1, ?w1)"
    using assms by (simp add: flip_Some)
  have r1: "heap ?w1 ! ?r1 = flip_axis (nat k) ?A" by simp
  have "ndim (flip_axis (nat k) ?A) = ndim ?A" by (simp add: ndim_def flip_axis_def)
  then have 2: "flip lib ?r1 (Some k) s2 ?w1 =
     (Inr (length (heap ?w1)), ?w1\<lparr>heap := heap ?w1 @ [flip_axis (nat k) (flip_axis (nat k) ?A)]\<rparr>)"
    using assms flip_Some[of k ?w1 ?r1 lib s2] by (simp only: r1) 
  show ?thesis
    apply (rule exI[of _ ?r1], rule exI[of _ ?w1])
    apply (rule exI[of _ "length (heap ?w1)"])
    apply (rule exI[of _ "?w1\<lparr>heap := heap ?w1 @ [flip_axis (nat k) (flip_axis (nat k) ?A)]\<rparr>"])
    using 1 2 assms by (simp add: flip_axis_involution nth_append set_flat_flip_axis)
qed

theorem flip_involution_witness:
  "\<exists>r1 w1 r2 w2.
     flip example_lib 0 (Some 1) None (example_world [arange_array [2, 2]]) = (Inr r1, w1) \<and>
     flip example_lib r1 (Some 1) None w1 = (Inr r2, w2) \<and>
     heap w2 ! r2 = arange_array [2, 2] \<and>
     flat (heap w1 ! r1) = [Finite 1, Finite 0, Finite 3, Finite 2]"
proof -
  let ?w = "example_world [arange_array [2, 2]]"
  have h: "(0::nat) < length (heap ?w)" "wf_array (heap ?w ! 0)" "(0::int) \<le> 1"
    "1 < int (ndim (heap ?w ! 0))"
    by (simp_all add: example_world_def arange_array_def ndim_def)
  have f: "flat (flip_axis 1 (arange_array [2, 2])) = [Finite 1, Finite 0, Finite 3, Finite 2]"
    by code_simp
  have s: "flip example_lib 0 (Some 1) None ?w
      = (Inr 1, ?w\<lparr>heap := heap ?w @ [flip_axis 1 (arange_array [2, 2])]\<rparr>)"
    using flip_Some[of 1 ?w 0 example_lib None] h by (simp add: example_world_def)
  from flip_involution[OF h, of example_lib None None]
  obtain r1 w1 r2 w2 where
    a: "flip example_lib 0 (Some 1) None ?w = (Inr r1, w1)" and
    b: "flip example_lib r1 (Some 1) None w1 = (Inr r2, w2)" and
    c: "heap w2 ! r2 = heap ?w ! 0"
    by blast
  from a s have "heap w1 ! r1 = flip_axis 1 (arange_array [2, 2])"
    by (auto simp: example_world_def)
  with a b c f show ?thesis by (auto simp: example_world_def)
qed

text \<open>
  Claim C10. With an explicit axis \<open>k\<close>, \<open>0 \<le> k < ndim\<close>, \<open>flip\<close> returns a new array that
  is the mirror of the input along axis \<open>k\<close>, whatever the seed is (\<open>None\<close> included): the
  final state differs from the initial one by the new array only, so the global generator
  is neither reseeded nor drawn from, and the right-hand side does not mention the seed.
\<close>

theorem flip_explicit_axis:
  assumes "0 \<le> k" and "k < int (ndim (heap w ! arr))"
  shows "flip lib arr (Some k) seed w =
           (Inr (length (heap w)), w\<lparr>heap := heap w @ [flip_axis (nat k) (heap w ! arr)]\<rparr>)
         \<and> shape (flip_axis (nat k) (heap w ! arr)) = shape (heap w ! arr)
         \<and> (\<forall>idx. valid_index (shape (heap w ! arr)) idx \<longrightarrow>
              get (flip_axis (nat k) (heap w ! arr)) idx
                = get (heap w ! arr) (mirror (shape (heap w ! arr)) (nat k) idx))"
  using assms by (simp add: flip_Some get_flip_axis shape_flip_axis)

theorem flip_explicit_axis_witness:
  "flip example_lib 0 (Some 0) None (example_world [arange_array [2, 2]])
     = (Inr 1, example_world [arange_array [2, 2], flip_axis 0 (arange_array [2, 2])])
   \<and> flip example_lib 0 (Some 0) (Some 5) (example_world [arange_array [2, 2]])
     = (Inr 1, example_world [arange_array [2, 2], flip_axis 0 (arange_array [2, 2])])
   \<and> flat (flip_axis 0 (arange_array [2, 2])) = [Finite 2, Finite 3, Finite 0, Finite 1]"
proof -
  let ?w = "example_world [arange_array [2, 2]]"
  have h: "(0::int) \<le> 0" "0 < int (ndim (heap ?w ! 0))"
    by (simp_all add: example_world_def arange_array_def ndim_def)
  have f: "flat (flip_axis 0 (arange_array [2, 2])) = [Finite 2, Finite 3, Finite 0, Finite 1]"
    by code_simp
  show ?thesis
    using flip_explicit_axis[OF h, of example_lib None] flip_explicit_axis[OF h, of example_lib "Some 5"] f
    by (simp add: example_world_def)
qed

text \<open>
  Claim C4. \<open>random_generator\<close> raises \<open>ValueError("Unsupported sampling distribution.")\<close>
  (the specification's \<open>UnsupportedDistribution\<close>) exactly when the distribution name is
  neither \<open>"uniform"\<close> nor \<open>"lognormal"\<close>; it does for \<open>interval=(0,1), size=5,
  dist="bogus"\<close>, for every seed and in every state.
\<close>

theorem random_generator_unsupported:
  "(fst (random_generator lib interval sz distr seed w)
      = Inl (ValueError ''Unsupported sampling distribution.''))
     = (distr \<noteq> ''uniform'' \<and> distr \<noteq> ''lognormal'')
   \<and> fst (random_generator lib (Finite 0, Finite 1) 5 ''bogus'' seed w)
      = Inl (ValueError ''Unsupported sampling distribution.'')"
  by (simp add: random_generator_def py_defs np_random_seed_def np_random_uniform_def
      np_random_randint_def np_random_lognormal_def np_map_def np_map2_def Let_def
      split: prod.splits sum.splits option.splits)

section \<open>Two runs with one seed\<close>

lemma wrel_weaken: "wrel u h1 h2 b w1 w2 \<Longrightarrow> wrel u h1 h2 False w1 w2"
  by (auto simp: wrel_def)

lemma res_rel_Inr [simp]:
  "res_rel u h1 h2 b' Q (Inr x1, w1) p2 \<longleftrightarrow>
     (\<exists>x2. fst p2 = Inr x2 \<and> Q x1 x2 \<and> wrel u h1 h2 b' w1 (snd p2))"
  by (cases "fst p2") (auto simp: res_rel_def)

lemma res_rel_Inl [simp]:
  "res_rel u h1 h2 b' Q (Inl e, w1) p2 \<longleftrightarrow> fst p2 = Inl e \<and> wrel u h1 h2 False w1 (snd p2)"
  by (simp add: res_rel_def)

lemma prel_ret: "Q x1 x2 \<Longrightarrow> prel u h1 h2 b b Q (ret x1) (ret x2)"
  by (simp add: prel_def ret_def)

lemma prel_raise: "prel u h1 h2 b b' Q (raise e) (raise e)"
  by (auto simp: prel_def raise_def wrel_def)

lemma prel_lift: "prel u h1 h2 b b (=) (lift r) (lift r)"
  by (cases r) (auto simp: lift_def prel_def raise_def ret_def wrel_def)

lemma prel_and_then:
  fixes m1 :: "('g, 'r) py" and m2 :: "('g, 'q) py"
  assumes "prel u h1 h2 b b' Q m1 m2"
    and "\<And>x1 x2. Q x1 x2 \<Longrightarrow> prel u h1 h2 b' b'' Q' (f1 x1) (f2 x2)"
  shows "prel u h1 h2 b b'' Q' (and_then m1 f1) (and_then m2 f2)"
  unfolding prel_def
proof (intro allI impI)
  fix w1 w2 :: "'g world" assume w: "wrel u h1 h2 b w1 w2"
  obtain r1 w1' where m1: "m1 w1 = (r1, w1')" by (cases "m1 w1")
  obtain r2 w2' where m2: "m2 w2 = (r2, w2')" by (cases "m2 w2")
  from assms(1) w m1 m2 have c: "res_rel u h1 h2 b' Q (r1, w1') (r2, w2')"
    unfolding prel_def by metis
  show "res_rel u h1 h2 b'' Q' (and_then m1 f1 w1) (and_then m2 f2 w2)"
  proof (cases r1)
    case (Inl e1)
    with c m1 m2 show ?thesis by (simp add: and_then_def)
  next
    case (Inr x1)
    with c obtain x2 where x2: "r2 = Inr x2" and q: "Q x1 x2"
      and w': "wrel u h1 h2 b' w1' w2'" by auto
    from assms(2)[OF q] w' have "res_rel u h1 h2 b'' Q' (f1 x1 w1') (f2 x2 w2')"
      unfolding prel_def by blast
    with Inr x2 m1 m2 show ?thesis by (simp add: and_then_def)
  qed
qed

lemma prel_alloc: "prel u h1 h2 b b (nrel h1 h2) (alloc v) (alloc v)"
  by (auto simp: prel_def alloc_def wrel_def nrel_def)

lemma prel_deref: "drel h1 h2 r1 r2 \<Longrightarrow> prel u h1 h2 b b (=) (deref r1) (deref r2)"
  by (auto simp: prel_def deref_def wrel_def nrel_def drel_def nth_append)

lemma prel_store: "nrel h1 h2 r1 r2 \<Longrightarrow> prel u h1 h2 b b (=) (store r1 v) (store r2 v)"
  by (auto simp: prel_def store_def wrel_def nrel_def list_update_append)

lemma nrel_drel: "nrel h1 h2 r1 r2 \<Longrightarrow> drel h1 h2 r1 r2"
  by (simp add: drel_def)

lemma prel_call1:
  "drel h1 h2 r1 r2 \<Longrightarrow> prel u h1 h2 b b (nrel h1 h2) (call1 f r1) (call1 f r2)"
  unfolding call1_def
  by (rule prel_and_then[OF prel_deref], assumption, simp)
     (rule prel_and_then[OF prel_lift], simp add: prel_alloc)

lemma prel_call2:
  "drel h1 h2 r1 r2 \<Longrightarrow> drel h1 h2 s1 s2 \<Longrightarrow>
     prel u h1 h2 b b (nrel h1 h2) (call2 f r1 s1) (call2 f r2 s2)"
  unfolding call2_def
  apply (rule prel_and_then[OF prel_deref], assumption, simp)
  apply (rule prel_and_then[OF prel_deref], assumption, simp)
  apply (rule prel_and_then[OF prel_lift], simp add: prel_alloc)
  done

lemma prel_call3:
  "drel h1 h2 r1 r2 \<Longrightarrow> drel h1 h2 s1 s2 \<Longrightarrow> drel h1 h2 t1 t2 \<Longrightarrow>
     prel u h1 h2 b b (nrel h1 h2) (call3 f r1 s1 t1) (call3 f r2 s2 t2)"
  unfolding call3_def
  apply (rule prel_and_then[OF prel_deref], assumption, simp)
  apply (rule prel_and_then[OF prel_deref], assumption, simp)
  apply (rule prel_and_then[OF prel_deref], assumption, simp)
  apply (rule prel_and_then[OF prel_lift], simp add: prel_alloc)
  done

lemma prel_inplace:
  "nrel h1 h2 r1 r2 \<Longrightarrow> prel u h1 h2 b b (=) (inplace f r1) (inplace f r2)"
  unfolding inplace_def
  apply (rule prel_and_then[OF prel_deref], erule nrel_drel, simp)
  apply (rule prel_and_then[OF prel_lift], simp add: prel_store)
  done

lemma prel_seed_Some: "prel u h1 h2 b True (=) (np_random_seed lib (Some s)) (np_random_seed lib (Some s))"
  by (auto simp: prel_def np_random_seed_def wrel_def)

lemma prel_seed_None: "prel True h1 h2 b True (=) (np_random_seed lib None) (np_random_seed lib None)"
  by (auto simp: prel_def np_random_seed_def wrel_def)

lemma prel_uniform:
  "prel u h1 h2 True True (=) (np_random_uniform lib lo hi n) (np_random_uniform lib lo hi n)"
  by (auto simp: prel_def np_random_uniform_def wrel_def Let_def case_prod_unfold)

lemma prel_randint:
  "prel u h1 h2 True True (=) (np_random_randint lib lo hi n) (np_random_randint lib lo hi n)"
  by (auto simp: prel_def np_random_randint_def wrel_def Let_def case_prod_unfold)

lemma prel_lognormal:
  "prel u h1 h2 True True (=) (np_random_lognormal lib mu sg n) (np_random_lognormal lib mu sg n)"
  by (auto simp: prel_def np_random_lognormal_def wrel_def Let_def case_prod_unfold)

lemma prel_if:
  "(c \<Longrightarrow> prel u h1 h2 b b' Q m1 m2) \<Longrightarrow> (\<not> c \<Longrightarrow> prel u h1 h2 b b' Q m1' m2') \<Longrightarrow>
     prel u h1 h2 b b' Q (if c then m1 else m1') (if c then m2 else m2')"
  by simp

lemma prel_seed:
  "seed = None \<longrightarrow> u \<Longrightarrow> prel u h1 h2 b True (=) (np_random_seed lib seed) (np_random_seed lib seed)"
  by (cases seed) (auto simp: prel_seed_Some prel_seed_None)

lemmas prel_rules = prel_if prel_and_then prel_ret prel_raise prel_lift prel_alloc prel_deref
  prel_store prel_call1 prel_call2 prel_call3 prel_inplace prel_seed prel_uniform prel_randint
  prel_lognormal

lemma prel_random_generator:
  "seed = None \<longrightarrow> u \<Longrightarrow>
     prel u h1 h2 b True (nrel h1 h2) (random_generator lib iv n distr seed)
       (random_generator lib iv n distr seed)"
  unfolding random_generator_def
  by ((rule prel_rules | hypsubst | assumption | erule nrel_drel)+)

lemma prel_gaussian_random_field:
  "seed = None \<longrightarrow> u \<Longrightarrow>
     prel u h1 h2 b True (nrel h1 h2) (gaussian_random_field lib shp alpha nrm seed)
       (gaussian_random_field lib shp alpha nrm seed)"
  unfolding gaussian_random_field_def
  apply (rule prel_and_then, erule prel_seed)
  apply (auto simp: prel_def alloc_def wrel_def nrel_def case_prod_unfold Let_def)
  done

lemma prel_resample:
  "drel h1 h2 a1 a2 \<Longrightarrow> drel h1 h2 l1 l2 \<Longrightarrow>
     prel u h1 h2 b b (nrel h1 h2) (resample lib a1 l1 order shp) (resample lib a2 l2 order shp)"
  unfolding resample_def
  by ((rule prel_rules | hypsubst | assumption | erule nrel_drel)+)

lemma prel_affine_draws:
  "seed = None \<longrightarrow> u \<Longrightarrow> drel h1 h2 a1 a2 \<Longrightarrow>
     prel u h1 h2 b True (triple_rel h1 h2)
       (affine_draws lib a1 rot tr zoom distr seed) (affine_draws lib a2 rot tr zoom distr seed)"
  unfolding affine_draws_def
  by ((rule prel_rules prel_random_generator | hypsubst | assumption | erule nrel_drel
        | simp add: triple_rel_def)+)

lemma prel_affine_locs:
  "seed = None \<longrightarrow> u \<Longrightarrow> drel h1 h2 a1 a2 \<Longrightarrow>
     prel u h1 h2 b True (\<lambda>p1 p2. fst p1 = fst p2 \<and> nrel h1 h2 (snd p1) (snd p2))
       (affine_locs lib a1 rot tr zoom distr seed) (affine_locs lib a2 rot tr zoom distr seed)"
  unfolding affine_locs_def
  apply (rule prel_and_then, erule prel_affine_draws, assumption)
  apply (unfold triple_rel_def, (erule conjE)+)
  apply ((rule prel_rules | hypsubst | assumption | erule nrel_drel | simp)+)
  done

lemma prel_affine:
  "seed = None \<longrightarrow> u \<Longrightarrow> drel h1 h2 a1 a2 \<Longrightarrow>
     prel u h1 h2 b True (nrel h1 h2) (affine lib a1 rot tr zoom order distr seed)
       (affine lib a2 rot tr zoom order distr seed)"
  unfolding affine_def
  apply (rule prel_and_then, erule prel_affine_locs, assumption)
  apply (erule conjE, simp)
  apply (erule prel_resample, erule nrel_drel)
  done

lemma res_rel_weaken:
  "res_rel u h1 h2 b' Q p1 p2 \<Longrightarrow> res_rel u h1 h2 False Q p1 p2"
  unfolding res_rel_def
  by (cases "fst p1"; cases "fst p2") (auto intro: wrel_weaken)

lemma prel_weaken_post:
  "prel u h1 h2 b b' Q m1 m2 \<Longrightarrow> prel u h1 h2 b False Q m1 m2"
  unfolding prel_def by (blast intro: res_rel_weaken)

lemma prel_case_option:
  "(ax = None \<Longrightarrow> prel u h1 h2 b b' Q m1 m2) \<Longrightarrow>
   (\<And>k. ax = Some k \<Longrightarrow> prel u h1 h2 b b' Q (f1 k) (f2 k)) \<Longrightarrow>
     prel u h1 h2 b b' Q (case ax of None \<Rightarrow> m1 | Some k \<Rightarrow> f1 k) (case ax of None \<Rightarrow> m2 | Some k \<Rightarrow> f2 k)"
  by (cases ax) simp_all

lemma prel_flip:
  "seed = None \<longrightarrow> u \<Longrightarrow> drel h1 h2 a1 a2 \<Longrightarrow>
     prel u h1 h2 b False (nrel h1 h2) (flip lib a1 axis seed) (flip lib a2 axis seed)"
  unfolding flip_def
  apply (rule prel_and_then[where b' = False])
   apply (rule prel_case_option)
    apply (rule prel_weaken_post)
    apply (rule prel_and_then, erule prel_seed, hypsubst)
    apply (rule prel_and_then, erule prel_deref, hypsubst)
    apply (rule prel_and_then, rule prel_randint, hypsubst)
    apply (rule prel_lift)
   apply (rule prel_weaken_post)
   apply (rule prel_ret, rule refl)
  apply hypsubst
  apply (erule prel_call1)
  done

lemma prel_direction_field:
  "seed = None \<longrightarrow> u \<Longrightarrow> drel h1 h2 a1 a2 \<Longrightarrow>
     prel u h1 h2 b True (nrel h1 h2) (direction_field lib a1 alpha seed)
       (direction_field lib a2 alpha seed)"
  unfolding direction_field_def
  by ((rule prel_rules prel_gaussian_random_field | hypsubst | assumption | erule nrel_drel)+)

lemma prel_deformation_flow:
  "seed = None \<longrightarrow> u \<Longrightarrow> drel h1 h2 a1 a2 \<Longrightarrow>
     prel u h1 h2 b True (nrel h1 h2) (deformation_flow lib a1 md alpha seed)
       (deformation_flow lib a2 md alpha seed)"
  unfolding deformation_flow_def
  by ((rule prel_rules prel_direction_field | hypsubst | assumption | erule nrel_drel
        | simp)+)

lemma prel_deformation_locs:
  "seed = None \<longrightarrow> u \<Longrightarrow> drel h1 h2 a1 a2 \<Longrightarrow>
     prel u h1 h2 b True (nrel h1 h2) (deformation_locs lib a1 md alpha seed)
       (deformation_locs lib a2 md alpha seed)"
  unfolding deformation_locs_def
  by ((rule prel_rules prel_deformation_flow | hypsubst | assumption | erule nrel_drel)+)

lemma prel_deformation:
  "seed = None \<longrightarrow> u \<Longrightarrow> drel h1 h2 a1 a2 \<Longrightarrow>
     prel u h1 h2 b True (nrel h1 h2) (deformation lib a1 md alpha order seed)
       (deformation lib a2 md alpha order seed)"
  unfolding deformation_def
  by ((rule prel_rules prel_deformation_locs prel_resample | hypsubst | assumption
        | erule nrel_drel)+)

lemma prel_outcome:
  assumes "prel u h1 h2 b b' (nrel h1 h2) m1 m2" and "wrel u h1 h2 b w1 w2"
  shows "outcome (m1 w1) = outcome (m2 w2)"
proof -
  from assms have r: "res_rel u h1 h2 b' (nrel h1 h2) (m1 w1) (m2 w2)"
    by (simp add: prel_def)
  obtain r1 w1' where m1: "m1 w1 = (r1, w1')" by (cases "m1 w1")
  show ?thesis
  proof (cases r1)
    case (Inl e)
    with r m1 show ?thesis by (simp add: outcome_def)
  next
    case (Inr x1)
    with r m1 obtain x2 t where "fst (m2 w2) = Inr x2" and n: "nrel h1 h2 x1 x2"
      and h: "heap w1' = h1 @ t" "heap (snd (m2 w2)) = h2 @ t"
      by (auto simp: wrel_def)
    moreover from n have "(h1 @ t) ! x1 = (h2 @ t) ! x2"
      by (simp add: nrel_def nth_append)
    ultimately show ?thesis using Inr m1 by (simp add: outcome_def)
  qed
qed

lemma prel_frame:
  assumes "prel True (heap w) (heap w) True b' Q m m"
  shows "take (length (heap w)) (heap (snd (m w))) = heap w"
proof -
  have "wrel True (heap w) (heap w) True w w" by (simp add: wrel_def)
  with assms have "res_rel True (heap w) (heap w) b' Q (m w) (m w)" by (simp add: prel_def)
  then have "\<exists>t. heap (snd (m w)) = heap w @ t"
    by (cases "m w"; cases "fst (m w)") (auto simp: wrel_def)
  then show ?thesis by auto
qed

lemma wrel_start: "wrel False (heap w1) (heap w2) False w1 w2"
  by (simp add: wrel_def)

lemma drel_start:
  "a1 < length (heap w1) \<Longrightarrow> a2 < length (heap w2) \<Longrightarrow> heap w1 ! a1 = heap w2 ! a2 \<Longrightarrow>
     drel (heap w1) (heap w2) a1 a2"
  by (simp add: drel_def)

text \<open>
  Claim C1. With a seed \<open>s\<close>, the outcome of \<open>affine\<close>, of \<open>flip\<close> and of \<open>deformation\<close>
  (the array returned, or the exception) is a function of the input array and of the
  other arguments alone: two calls with equal input arrays and equal arguments have the
  same outcome, whatever the state of the global generator, the entropy of the system
  and the other objects of the heap are at either call; so the same call made twice
  returns identical arrays.
\<close>

theorem same_seed_same_output:
  assumes "a1 < length (heap w1)" and "a2 < length (heap w2)"
    and "heap w1 ! a1 = heap w2 ! a2"
  shows "outcome (affine lib a1 rotation translation zoom order distr (Some s) w1)
           = outcome (affine lib a2 rotation translation zoom order distr (Some s) w2)
       \<and> outcome (flip lib a1 axis (Some s) w1) = outcome (flip lib a2 axis (Some s) w2)
       \<and> outcome (deformation lib a1 max_displacement alpha order (Some s) w1)
           = outcome (deformation lib a2 max_displacement alpha order (Some s) w2)"
proof -
  have d: "drel (heap w1) (heap w2) a1 a2" using assms by (rule drel_start)
  have s: "Some s = None \<longrightarrow> False" by simp
  note w = wrel_start[of w1 w2]
  show ?thesis
    using prel_outcome[OF prel_affine[OF s d] w]
      prel_outcome[OF prel_flip[OF s d] w]
      prel_outcome[OF prel_deformation[OF s d] w]
    by simp
qed

theorem same_seed_same_output_witness:
  "outcome (affine example_lib 0 (Magnitude (Finite 10)) (Magnitude (Finite 10)) (Finite (1 / 5)) 3
              ''uniform'' (Some 42) (example_world [arange_array [1, 2, 2]]))
     = outcome (affine example_lib 1 (Magnitude (Finite 10)) (Magnitude (Finite 10)) (Finite (1 / 5)) 3
              ''uniform'' (Some 42)
              \<lparr>rng = 3, urandom = (\<lambda>n. 5), heap = [arange_array [2], arange_array [1, 2, 2]]\<rparr>)
   \<and> outcome (flip example_lib 0 None (Some 42) (example_world [arange_array [1, 2, 2]]))
     = outcome (flip example_lib 1 None (Some 42)
              \<lparr>rng = 3, urandom = (\<lambda>n. 5), heap = [arange_array [2], arange_array [1, 2, 2]]\<rparr>)
   \<and> outcome (deformation example_lib 0 (Finite 4) 3 3 (Some 42) (example_world [arange_array [1, 2, 2]]))
     = outcome (deformation example_lib 1 (Finite 4) 3 3 (Some 42)
              \<lparr>rng = 3, urandom = (\<lambda>n. 5), heap = [arange_array [2], arange_array [1, 2, 2]]\<rparr>)"
proof -
  let ?w1 = "example_world [arange_array [1, 2, 2]]"
  let ?w2 = "\<lparr>rng = 3::nat, urandom = (\<lambda>n. 5), heap = [arange_array [2], arange_array [1, 2, 2]]\<rparr>"
  have h: "0 < length (heap ?w1)" "1 < length (heap ?w2)" "heap ?w1 ! 0 = heap ?w2 ! 1"
    by (simp_all add: example_world_def)
  show ?thesis
    using same_seed_same_output[OF h, of example_lib "Magnitude (Finite 10)" "Magnitude (Finite 10)"
        "Finite (1 / 5)" 3 "''uniform''" 42 None "Finite 4" 3]
    by simp
qed

section \<open>One run: what a call that returns has done\<close>

lemma and_then_Inr:
  "and_then m f w = (Inr y, w') \<longleftrightarrow> (\<exists>x w1. m w = (Inr x, w1) \<and> f x w1 = (Inr y, w'))"
  by (cases "m w"; cases "fst (m w)") (auto simp: and_then_def)

lemma and_then_step: "m w = (Inr x, w1) \<Longrightarrow> and_then m f w = f x w1"
  by (simp add: and_then_def)

lemma and_then_fail: "m w = (Inl e, w1) \<Longrightarrow> and_then m f w = (Inl e, w1)"
  by (simp add: and_then_def)

lemma ret_Inr: "ret x w = (Inr y, w') \<longleftrightarrow> y = x \<and> w' = w"
  by (auto simp: ret_def)

lemma raise_Inr: "raise e w = (Inr y, w') \<longleftrightarrow> False"
  by (simp add: raise_def)

lemma lift_Inr: "lift r w = (Inr y, w') \<longleftrightarrow> r = Inr y \<and> w' = w"
  by (cases r) (auto simp: lift_def ret_def raise_def)

lemma alloc_Inr: "alloc v w = (Inr r, w') \<longleftrightarrow> r = length (heap w) \<and> w' = w\<lparr>heap := heap w @ [v]\<rparr>"
  by (auto simp: alloc_def)

lemma deref_Inr: "deref r w = (Inr v, w') \<longleftrightarrow> v = heap w ! r \<and> w' = w"
  by (auto simp: deref_def)

lemma call1_Inr:
  "call1 f a w = (Inr r, w') \<longleftrightarrow>
     (\<exists>v. f (heap w ! a) = Inr v \<and> r = length (heap w) \<and> w' = w\<lparr>heap := heap w @ [v]\<rparr>)"
  by (auto simp: call1_def and_then_Inr deref_Inr lift_Inr alloc_Inr)

lemma call2_Inr:
  "call2 f a b w = (Inr r, w') \<longleftrightarrow>
     (\<exists>v. f (heap w ! a) (heap w ! b) = Inr v \<and> r = length (heap w)
        \<and> w' = w\<lparr>heap := heap w @ [v]\<rparr>)"
  by (auto simp: call2_def and_then_Inr deref_Inr lift_Inr alloc_Inr)

lemma call3_Inr:
  "call3 f a b c w = (Inr r, w') \<longleftrightarrow>
     (\<exists>v. f (heap w ! a) (heap w ! b) (heap w ! c) = Inr v \<and> r = length (heap w)
        \<and> w' = w\<lparr>heap := heap w @ [v]\<rparr>)"
  by (auto simp: call3_def and_then_Inr deref_Inr lift_Inr alloc_Inr)

lemma inplace_Inr:
  "inplace f a w = (Inr x, w') \<longleftrightarrow>
     (\<exists>v. f (heap w ! a) = Inr v \<and> w' = w\<lparr>heap := (heap w)[a := v]\<rparr>)"
  by (auto simp: inplace_def and_then_Inr deref_Inr lift_Inr store_def)

lemmas inv_simps = and_then_Inr ret_Inr raise_Inr lift_Inr alloc_Inr deref_Inr call1_Inr call2_Inr
  call3_Inr inplace_Inr

lemma filter_minus1_map_int: "filter (\<lambda>d. d = - 1) (map int s) = []"
  by (induction s) auto

lemma filter_not_minus1_map_int: "filter (\<lambda>d. d \<noteq> - 1) (map int s) = map int s"
  by (induction s) auto

lemma np_reshape_same_shape:
  "np_reshape t (map int shp) = Inr v \<Longrightarrow> shape v = shp \<and> flat v = flat t"
  by (auto simp: np_reshape_def Let_def filter_minus1_map_int comp_def split: if_splits)

lemma resample_Inr:
  "resample lib arr locs order shp w = (Inr r, w') \<Longrightarrow>
     shape (heap w' ! r) = shp \<and> 0 \<le> order \<and> order \<le> 5 \<and> r < length (heap w')"
  by (auto simp: resample_def inv_simps map_coordinates_def nth_append
        dest!: np_reshape_same_shape split: if_splits)


lemmas np_defs = np_random_seed_def np_random_uniform_def np_random_randint_def
  np_random_lognormal_def np_map_def np_map2_def

lemma random_generator_new:
  "random_generator lib iv n distr seed w = (Inr r, w') \<Longrightarrow>
     length (heap w) \<le> r \<and> r < length (heap w') \<and> shape (heap w' ! r) = [n]
     \<and> (\<exists>news. heap w' = heap w @ news)"
  by (auto simp add: random_generator_def py_defs np_defs Let_def case_prod_unfold
       nth_append list_update_append split: option.splits if_splits)

lemma np_random_seed_Inr: "np_random_seed lib seed w = (Inr x, w') \<Longrightarrow> heap w' = heap w"
  by (auto simp: np_random_seed_def split: option.splits if_splits)

lemma np_random_uniform_Inr:
  "np_random_uniform lib lo hi n w = (Inr v, w') \<Longrightarrow> heap w' = heap w \<and> shape v = [n]"
  by (auto simp: np_random_uniform_def Let_def case_prod_unfold split: if_splits)

lemma affine_draws_Inr:
  assumes "arr < length (heap w)"
    and "affine_draws lib arr rot tr zoom distr seed w = (Inr d, w')"
  shows "(\<exists>t. heap w' = heap w @ t) \<and> fst d < length (heap w')
       \<and> shape (heap w' ! fst d) = [ndim (heap w ! arr)]"
proof -
  from assms(2) obtain iv1 iv2 rr w1 rt w2 u w3 v w4 where
    g1: "random_generator lib iv1 (ndim (heap w ! arr)) distr seed w = (Inr rr, w1)" and
    g2: "random_generator lib iv2 (ndim (heap w1 ! arr)) distr seed w1 = (Inr rt, w2)" and
    s: "np_random_seed lib seed w2 = (Inr u, w3)" and
    z: "np_random_uniform lib (fsub (Finite 1) zoom) (fadd (Finite 1) zoom) (ndim (heap w3 ! arr)) w3
          = (Inr v, w4)" and
    d: "d = (rr, rt, length (heap w4))" and w': "w' = w4\<lparr>heap := heap w4 @ [v]\<rparr>"
    unfolding affine_draws_def by (auto simp: inv_simps)
  from random_generator_new[OF g1] obtain n1 where
    1: "rr < length (heap w1)" "shape (heap w1 ! rr) = [ndim (heap w ! arr)]" "heap w1 = heap w @ n1"
    by auto
  from random_generator_new[OF g2] obtain n2 where 2: "heap w2 = heap w1 @ n2" by auto
  from np_random_seed_Inr[OF s] np_random_uniform_Inr[OF z] have 3: "heap w4 = heap w2" by simp
  have h: "heap w' = heap w1 @ (n2 @ [v])" using 2 3 w' by simp
  then have "heap w' ! rr = heap w1 ! rr" using 1(1) by (simp add: nth_append)
  moreover have "heap w' = heap w @ (n1 @ n2 @ [v])" using h 1(3) by simp
  moreover have "rr < length (heap w')" using h 1(1) by simp
  ultimately show ?thesis using 1(2) d by auto
qed

lemma affine_locs_shape:
  assumes "arr < length (heap w)"
    and "affine_locs lib arr rot tr zoom distr seed w = (Inr p, w')"
  shows "fst p = shape (heap w ! arr) \<and> shape (heap w ! arr) \<noteq> [] \<and> ndim (heap w ! arr) = 3"
proof -
  from assms(2) have "\<exists>d w1 v.
      affine_draws lib arr rot tr zoom distr seed w = (Inr d, w1) \<and>
      shape (heap w1 ! fst d) = [3] \<and>
      fst p = shape ((heap w1 @ [Rotation_as_matrix lib (flat (heap w1 ! fst d)), v]) ! arr)"
    unfolding affine_locs_def
    by (auto simp: inv_simps Rotation_from_euler_xyz_def split: if_splits)
  then obtain d w1 v where
    d: "affine_draws lib arr rot tr zoom distr seed w = (Inr d, w1)" and
    e: "shape (heap w1 ! fst d) = [3]" and
    r: "fst p = shape ((heap w1 @ [Rotation_as_matrix lib (flat (heap w1 ! fst d)), v]) ! arr)"
    by blast
  from affine_draws_Inr[OF assms(1) d] e obtain t where
    "heap w1 = heap w @ t" "ndim (heap w ! arr) = 3" by auto
  with r assms(1) show ?thesis by (auto simp: nth_append ndim_def)
qed


lemma drel_same: "arr < length (heap w) \<Longrightarrow> drel (heap w) (heap w) arr arr"
  by (simp add: drel_def)

lemma affine_frame:
  "arr < length (heap w) \<Longrightarrow>
     take (length (heap w)) (heap (snd (affine lib arr rot tr zoom order distr seed w))) = heap w"
  by (rule prel_frame[OF prel_affine]) (simp_all add: drel_same)

lemma deformation_locs_frame:
  "arr < length (heap w) \<Longrightarrow>
     take (length (heap w)) (heap (snd (deformation_locs lib arr md alpha seed w))) = heap w"
  by (rule prel_frame[OF prel_deformation_locs]) (simp_all add: drel_same)

lemma deformation_frame:
  "arr < length (heap w) \<Longrightarrow>
     take (length (heap w)) (heap (snd (deformation lib arr md alpha order seed w))) = heap w"
  by (rule prel_frame[OF prel_deformation]) (simp_all add: drel_same)

lemma take_nth_eq: "take n xs = ys \<Longrightarrow> i < n \<Longrightarrow> xs ! i = ys ! i"
  by (metis nth_take)

lemma affine_shape:
  assumes "arr < length (heap w)"
    and "affine lib arr rot tr zoom order distr seed w = (Inr r, w')"
  shows "shape (heap w' ! r) = shape (heap w ! arr)"
proof -
  from assms(2) obtain p w1 where
    l: "affine_locs lib arr rot tr zoom distr seed w = (Inr p, w1)" and
    r: "resample lib arr (snd p) order (fst p) w1 = (Inr r, w')"
    unfolding affine_def by (auto simp: and_then_Inr)
  from resample_Inr[OF r] affine_locs_shape[OF assms(1) l] show ?thesis by simp
qed

lemma deformation_shape:
  assumes "arr < length (heap w)"
    and "deformation lib arr md alpha order seed w = (Inr r, w')"
  shows "shape (heap w' ! r) = shape (heap w ! arr)"
proof -
  from assms(2) obtain locs w1 where
    l: "deformation_locs lib arr md alpha seed w = (Inr locs, w1)" and
    r: "resample lib arr locs order (shape (heap w1 ! arr)) w1 = (Inr r, w')"
    unfolding deformation_def by (auto simp: inv_simps)
  from deformation_locs_frame[OF assms(1), of lib md alpha seed] l
  have "take (length (heap w)) (heap w1) = heap w" by simp
  then have "heap w1 ! arr = heap w ! arr" using assms(1) by (rule take_nth_eq)
  with resample_Inr[OF r] show ?thesis by simp
qed

text \<open>
  Claim C3. Whether \<open>affine\<close> and \<open>deformation\<close> return or raise, every object that was in
  the heap before the call, the input array among them, is the same after it: the
  augmented assignments of the module only ever overwrite arrays that the call itself
  has created. When they return, for any spline order, the array returned has the shape
  of the input array.
\<close>

theorem shape_preserved_input_unchanged:
  assumes "arr < length (heap w)"
  shows "take (length (heap w))
           (heap (snd (affine lib arr rotation translation zoom order distr seed w))) = heap w
       \<and> take (length (heap w))
           (heap (snd (deformation lib arr max_displacement alpha order seed w))) = heap w
       \<and> (\<forall>r w'. affine lib arr rotation translation zoom order distr seed w = (Inr r, w')
            \<longrightarrow> shape (heap w' ! r) = shape (heap w ! arr))
       \<and> (\<forall>r w'. deformation lib arr max_displacement alpha order seed w = (Inr r, w')
            \<longrightarrow> shape (heap w' ! r) = shape (heap w ! arr))"
  using assms by (simp add: affine_frame deformation_frame affine_shape deformation_shape)

theorem shape_preserved_input_unchanged_witness:
  "fst (affine example_lib 0 (Magnitude (Finite 10)) (Magnitude (Finite 10)) (Finite (1 / 5)) 3
          ''uniform'' (Some 42) (example_world [arange_array [1, 2, 2]])) = Inr 9
   \<and> shape (heap (snd (affine example_lib 0 (Magnitude (Finite 10)) (Magnitude (Finite 10))
          (Finite (1 / 5)) 3 ''uniform'' (Some 42) (example_world [arange_array [1, 2, 2]]))) ! 9)
       = [1, 2, 2]
   \<and> take 1 (heap (snd (affine example_lib 0 (Magnitude (Finite 10)) (Magnitude (Finite 10))
          (Finite (1 / 5)) 3 ''uniform'' (Some 42) (example_world [arange_array [1, 2, 2]]))))
       = [arange_array [1, 2, 2]]
   \<and> fst (deformation example_lib 0 (Finite 4) 3 3 (Some 0)
          (example_world [arange_array [1, 5, 1]])) = Inr 11
   \<and> shape (heap (snd (deformation example_lib 0 (Finite 4) 3 3 (Some 0)
          (example_world [arange_array [1, 5, 1]]))) ! 11) = [1, 5, 1]"
proof -
  let ?w = "example_world [arange_array [1, 2, 2]]"
  let ?v = "example_world [arange_array [1, 5, 1]]"
  let ?a = "affine example_lib 0 (Magnitude (Finite 10)) (Magnitude (Finite 10)) (Finite (1 / 5)) 3
          ''uniform'' (Some 42) ?w"
  let ?d = "deformation example_lib 0 (Finite 4) 3 3 (Some 0) ?v"
  have a: "fst ?a = Inr 9" by code_simp
  have d: "fst ?d = Inr 11" by code_simp
  have hw: "0 < length (heap ?w)" "heap ?w = [arange_array [1, 2, 2]]"
      "shape (arange_array [1, 2, 2]) = [1, 2, 2]"
    by (simp_all add: example_world_def arange_array_def)
  have hv: "0 < length (heap ?v)" "heap ?v = [arange_array [1, 5, 1]]"
      "shape (arange_array [1, 5, 1]) = [1, 5, 1]"
    by (simp_all add: example_world_def arange_array_def)
  from a have a': "?a = (Inr 9, snd ?a)" by (metis prod.collapse)
  from d have d': "?d = (Inr 11, snd ?d)" by (metis prod.collapse)
  from shape_preserved_input_unchanged[OF hw(1), where lib = example_lib
      and rotation = "Magnitude (Finite 10)" and translation = "Magnitude (Finite 10)"
      and zoom = "Finite (1 / 5)" and order = 3 and distr = "''uniform''" and seed = "Some 42"] a'
  have 1: "shape (heap (snd ?a) ! 9) = [1, 2, 2]" "take 1 (heap (snd ?a)) = [arange_array [1, 2, 2]]"
    using hw(2,3) by auto
  from shape_preserved_input_unchanged[OF hv(1), where lib = example_lib
      and max_displacement = "Finite 4" and alpha = 3 and order = 3 and seed = "Some 0"] d'
  have 2: "shape (heap (snd ?d) ! 11) = [1, 5, 1]"
    using hv(2,3) by auto
  from a d 1 2 show ?thesis by simp
qed

section \<open>Invalid arguments, and the random draws of \<open>affine\<close> and \<open>deformation\<close>\<close>

lemma fst_Inl_or_Inr: "(\<exists>e. fst p = Inl e) \<or> (\<exists>r w'. p = (Inr r, w'))"
  by (cases p; cases "fst p") auto

lemma resample_bad_order:
  "order < 0 \<or> 5 < order \<Longrightarrow>
     resample lib arr locs order shp w = (Inl (RuntimeError ''spline order not supported''), w)"
  by (auto simp: resample_def call2_def py_defs map_coordinates_def)

text \<open>
  Claim C6, as amended. With a spline order outside \<open>[0, 5]\<close>, \<open>affine\<close> and \<open>deformation\<close>
  return no array, for any input array. The module does not check the order itself:
  when the sampling coordinates have been computed (lines 57 to 72 of \<open>affine\<close>, lines 128
  to 150 of \<open>deformation\<close>), the call fails in \<open>map_coordinates\<close> with
  \<open>RuntimeError("spline order not supported")\<close>; when an earlier statement raises, the
  call fails with that earlier exception.
\<close>

theorem invalid_order_fails:
  assumes "order < 0 \<or> 5 < order"
  shows "(\<exists>e. fst (affine lib arr rotation translation zoom order distr seed w) = Inl e)
       \<and> (\<exists>e. fst (deformation lib arr max_displacement alpha order seed w) = Inl e)
       \<and> (\<forall>p w1. affine_locs lib arr rotation translation zoom distr seed w = (Inr p, w1)
            \<longrightarrow> affine lib arr rotation translation zoom order distr seed w
                = (Inl (RuntimeError ''spline order not supported''), w1))
       \<and> (\<forall>locs w1. deformation_locs lib arr max_displacement alpha seed w = (Inr locs, w1)
            \<longrightarrow> deformation lib arr max_displacement alpha order seed w
                = (Inl (RuntimeError ''spline order not supported''), w1))"
proof -
  have a: "\<exists>e. fst (affine lib arr rotation translation zoom order distr seed w) = Inl e"
  proof -
    have "affine lib arr rotation translation zoom order distr seed w \<noteq> (Inr r, w')" for r w'
    proof
      assume "affine lib arr rotation translation zoom order distr seed w = (Inr r, w')"
      then obtain p w1 where "resample lib arr (snd p) order (fst p) w1 = (Inr r, w')"
        unfolding affine_def by (auto simp: and_then_Inr)
      from resample_Inr[OF this] assms show False by simp
    qed
    then show ?thesis
      using fst_Inl_or_Inr[of "affine lib arr rotation translation zoom order distr seed w"]
      by blast
  qed
  have d: "\<exists>e. fst (deformation lib arr max_displacement alpha order seed w) = Inl e"
  proof -
    have "deformation lib arr max_displacement alpha order seed w \<noteq> (Inr r, w')" for r w'
    proof
      assume "deformation lib arr max_displacement alpha order seed w = (Inr r, w')"
      then obtain l s w1 where "resample lib arr l order s w1 = (Inr r, w')"
        unfolding deformation_def by (auto simp: inv_simps)
      from resample_Inr[OF this] assms show False by simp
    qed
    then show ?thesis
      using fst_Inl_or_Inr[of "deformation lib arr max_displacement alpha order seed w"]
      by blast
  qed
  have a2: "affine lib arr rotation translation zoom order distr seed w
              = (Inl (RuntimeError ''spline order not supported''), w1)"
    if "affine_locs lib arr rotation translation zoom distr seed w = (Inr p, w1)" for p w1
    using that assms by (simp add: affine_def and_then_step resample_bad_order)
  have d2: "deformation lib arr max_displacement alpha order seed w
              = (Inl (RuntimeError ''spline order not supported''), w1)"
    if "deformation_locs lib arr max_displacement alpha seed w = (Inr locs, w1)" for locs w1
    using that assms
    by (simp add: deformation_def and_then_step resample_bad_order)
       (simp add: and_then_def deref_def resample_bad_order)
  from a d a2 d2 show ?thesis by blast
qed

theorem invalid_order_fails_witness:
  "fst (affine example_lib 0 (Magnitude (Finite 10)) (Magnitude (Finite 10)) (Finite (1 / 5)) 7
          ''uniform'' (Some 42) (example_world [arange_array [1, 2, 2]]))
     = Inl (RuntimeError ''spline order not supported'')
   \<and> fst (deformation example_lib 0 (Finite 4) 3 (- 1) (Some 0)
          (example_world [arange_array [1, 5, 1]]))
     = Inl (RuntimeError ''spline order not supported'')"
proof -
  let ?w = "example_world [arange_array [1, 2, 2]]"
  let ?v = "example_world [arange_array [1, 5, 1]]"
  let ?l = "affine_locs example_lib 0 (Magnitude (Finite 10)) (Magnitude (Finite 10))
              (Finite (1 / 5)) ''uniform'' (Some 42) ?w"
  let ?m = "deformation_locs example_lib 0 (Finite 4) 3 (Some 0) ?v"
  have "fst ?l = Inr ([1, 2, 2], 7)" by code_simp
  then have l: "?l = (Inr ([1, 2, 2], 7), snd ?l)" by (metis prod.collapse)
  have "fst ?m = Inr 9" by code_simp
  then have m: "?m = (Inr 9, snd ?m)" by (metis prod.collapse)
  have o: "(7::int) < 0 \<or> 5 < (7::int)" "(- 1::int) < 0 \<or> 5 < (- 1::int)" by simp_all
  from invalid_order_fails[OF o(1), where lib = example_lib and arr = 0
      and rotation = "Magnitude (Finite 10)" and translation = "Magnitude (Finite 10)"
      and zoom = "Finite (1 / 5)" and distr = "''uniform''" and seed = "Some 42" and w = ?w] l
  have 1: "fst (affine example_lib 0 (Magnitude (Finite 10)) (Magnitude (Finite 10))
      (Finite (1 / 5)) 7 ''uniform'' (Some 42) ?w) = Inl (RuntimeError ''spline order not supported'')"
    by (metis fst_conv)
  from invalid_order_fails[OF o(2), where lib = example_lib and arr = 0
      and max_displacement = "Finite 4" and alpha = 3 and seed = "Some 0" and w = ?v] m
  have 2: "fst (deformation example_lib 0 (Finite 4) 3 (- 1) (Some 0) ?v)
      = Inl (RuntimeError ''spline order not supported'')"
    by (metis fst_conv)
  from 1 2 show ?thesis by simp
qed

theorem invalid_order_other_error:
  "fst (affine example_lib 0 (Magnitude (Finite 10)) (Magnitude (Finite 10)) (Finite (1 / 5)) 7
          ''uniform'' (Some 42) (example_world [arange_array [2, 2]]))
     = Inl (ValueError
         ''Expected angles to be at most 2-dimensional with width equal to number of axes specified'')
   \<and> fst (deformation example_lib 0 (Finite 4) 3 7 (Some 42) (example_world [arange_array [2, 2]]))
     = Inl (ValueError ''axes do not match array'')"
  by code_simp

lemma np_random_seed_returns:
  "valid_seed seed \<Longrightarrow> \<exists>w'. np_random_seed lib seed w = (Inr (), w')"
  by (auto simp add: valid_seed_def np_random_seed_def split: option.splits)






text \<open>
  Claim C8 fails on the code. \<open>affine\<close> passes one and the same seed to both calls of
  \<open>random_generator\<close>, and each call reseeds the global generator with it: when the
  rotation and the translation intervals are equal, the two vectors drawn are equal,
  element for element, for every generator.
\<close>

theorem same_seed_same_draws:
  assumes "arr < length (heap w)"
    and "affine_draws lib arr rotation rotation zoom distr (Some s) w = (Inr d, w')"
  shows "heap w' ! fst d = heap w' ! fst (snd d)"
proof -
  from assms(2) obtain iv rr w1 rt w2 u w3 v w4 where
    g1: "random_generator lib iv (ndim (heap w ! arr)) distr (Some s) w = (Inr rr, w1)" and
    g2: "random_generator lib iv (ndim (heap w1 ! arr)) distr (Some s) w1 = (Inr rt, w2)" and
    s: "np_random_seed lib (Some s) w2 = (Inr u, w3)" and
    z: "np_random_uniform lib (fsub (Finite 1) zoom) (fadd (Finite 1) zoom) (ndim (heap w3 ! arr)) w3
          = (Inr v, w4)" and
    d: "d = (rr, rt, length (heap w4))" and w': "w' = w4\<lparr>heap := heap w4 @ [v]\<rparr>"
    unfolding affine_draws_def by (auto simp: inv_simps)
  from random_generator_new[OF g1] obtain n1 where
    1: "rr < length (heap w1)" "heap w1 = heap w @ n1" by auto
  from random_generator_new[OF g2] obtain n2 where
    2: "rt < length (heap w2)" "heap w2 = heap w1 @ n2" by auto
  from np_random_seed_Inr[OF s] np_random_uniform_Inr[OF z] have 3: "heap w4 = heap w2" by simp
  have arr: "heap w1 ! arr = heap w ! arr" using 1(2) assms(1) by (simp add: nth_append)
  have "prel False (heap w) (heap w1) False True (nrel (heap w) (heap w1))
          (random_generator lib iv (ndim (heap w ! arr)) distr (Some s))
          (random_generator lib iv (ndim (heap w ! arr)) distr (Some s))"
    by (rule prel_random_generator) simp
  moreover have "wrel False (heap w) (heap w1) False w w1" by (simp add: wrel_def)
  ultimately have "outcome (random_generator lib iv (ndim (heap w ! arr)) distr (Some s) w)
      = outcome (random_generator lib iv (ndim (heap w ! arr)) distr (Some s) w1)"
    by (rule prel_outcome)
  then have "heap w1 ! rr = heap w2 ! rt" using g1 g2 arr by (simp add: outcome_def)
  moreover have "heap w' ! rr = heap w1 ! rr" using 1(1) 2(2) 3 w' by (simp add: nth_append)
  moreover have "heap w' ! rt = heap w2 ! rt" using 2(1) 3 w' by (simp add: nth_append)
  ultimately show ?thesis using d by simp
qed

theorem same_seed_same_draws_witness:
  "fst (affine_draws example_lib 0 (Magnitude (Finite 10)) (Magnitude (Finite 10)) (Finite (1 / 5))
          ''uniform'' (Some 42) (example_world [arange_array [1, 2, 2]])) = Inr (1, 2, 3)
   \<and> heap (snd (affine_draws example_lib 0 (Magnitude (Finite 10)) (Magnitude (Finite 10))
          (Finite (1 / 5)) ''uniform'' (Some 42) (example_world [arange_array [1, 2, 2]]))) ! 1
     = heap (snd (affine_draws example_lib 0 (Magnitude (Finite 10)) (Magnitude (Finite 10))
          (Finite (1 / 5)) ''uniform'' (Some 42) (example_world [arange_array [1, 2, 2]]))) ! 2"
proof -
  let ?w = "example_world [arange_array [1, 2, 2]]"
  let ?d = "affine_draws example_lib 0 (Magnitude (Finite 10)) (Magnitude (Finite 10))
              (Finite (1 / 5)) ''uniform'' (Some 42) ?w"
  have h: "0 < length (heap ?w)" by (simp add: example_world_def)
  have f: "fst ?d = Inr (1, 2, 3)" by code_simp
  then have d: "?d = (Inr (1, 2, 3), snd ?d)" by (metis prod.collapse)
  from same_seed_same_draws[OF h d] f show ?thesis by simp
qed

text \<open>
  Claim C5 fails on the code. \<open>deformation\<close> divides each field by its maximum, not by the
  maximum of its absolute values: a field whose minimum is further from zero than its
  maximum keeps values below \<open>-1\<close>. With \<open>max_displacement = 4\<close> and the field
  \<open>[[0.5, 0.5, 0.5, 0.5, -2]]\<close> (mean 0, standard deviation 1), the displacement of the
  last column is \<open>-16\<close> voxels along every axis.
\<close>

theorem displacement_exceeds_bound:
  "outcome (deformation_flow example_lib 0 (Finite 4) 3 (Some 0)
              (example_world [arange_array [1, 5, 1]]))
     = Inr \<lparr>shape = [3, 1, 5, 1],
            flat = [Finite 4, Finite 4, Finite 4, Finite 4, Finite (- 16),
                    Finite 4, Finite 4, Finite 4, Finite 4, Finite (- 16),
                    Finite 4, Finite 4, Finite 4, Finite 4, Finite (- 16)]\<rparr>"
  by code_simp

section \<open>\<open>deformation\<close> with no displacement\<close>

lemma nth_concat_same_length:
  "\<forall>xs\<in>set xss. length xs = m \<Longrightarrow> d < length xss \<Longrightarrow> j < m \<Longrightarrow>
     concat xss ! (d * m + j) = xss ! d ! j"
proof (induction xss arbitrary: d)
  case Nil
  then show ?case by simp
next
  case (Cons xs xss)
  show ?case
  proof (cases d)
    case 0
    with Cons.prems show ?thesis by (simp add: nth_append)
  next
    case (Suc d')
    with Cons.prems have "concat xss ! (d' * m + j) = xss ! d' ! j"
      by (intro Cons.IH) auto
    moreover have "length xs = m" using Cons.prems by simp
    ultimately show ?thesis using Suc by (simp add: nth_append)
  qed
qed

lemma get_in_flat: "wf_array a \<Longrightarrow> valid_index (shape a) idx \<Longrightarrow> get a idx \<in> set (flat a)"
  by (simp add: get_def wf_array_def flat_index_less)

lemma get_stacked:
  assumes "np_asarray vs = Inr st" and "d < length vs" and "list_all wf_array vs"
    and "valid_index (shape (vs ! d)) idx"
  shows "get st (d # idx) = get (vs ! d) idx"
proof -
  from assms(2) obtain v rest where vs: "vs = v # rest" by (cases vs) auto
  with assms(1) have same: "list_all (\<lambda>u. shape u = shape v) rest"
    and st: "st = \<lparr>shape = length vs # shape v, flat = concat (map flat vs)\<rparr>"
    by (auto simp: np_asarray_def split: if_splits)
  have sh: "shape u = shape v" if "u \<in> set vs" for u
    using that same vs by (auto simp: list_all_iff)
  have len: "\<forall>xs\<in>set (map flat vs). length xs = prod_list (shape v)"
    using assms(3) sh by (auto simp: list_all_iff wf_array_def)
  have d: "shape (vs ! d) = shape v" using assms(2) sh by simp
  have j: "flat_index (shape v) idx < prod_list (shape v)"
    using assms(4) d by (simp add: flat_index_less)
  have "get st (d # idx) = concat (map flat vs) ! (d * prod_list (shape v) + flat_index (shape v) idx)"
    by (simp add: st get_def)
  also have "\<dots> = map flat vs ! d ! flat_index (shape v) idx"
    using len assms(2) j by (intro nth_concat_same_length) simp_all
  also have "\<dots> = get (vs ! d) idx" using assms(2) d by (simp add: get_def)
  finally show ?thesis .
qed

lemma valid_index3:
  "valid_index [a, b, c] idx \<longleftrightarrow> (\<exists>i j k. idx = [i, j, k] \<and> i < a \<and> j < b \<and> k < c)"
  by (auto simp: valid_index_Cons)

lemma valid_index4:
  "valid_index [a, b, c, d] idx \<longleftrightarrow>
     (\<exists>h i j k. idx = [h, i, j, k] \<and> h < a \<and> i < b \<and> j < c \<and> k < d)"
  by (auto simp: valid_index_Cons)

lemma valid_index2:
  "valid_index [a, b] idx \<longleftrightarrow> (\<exists>i j. idx = [i, j] \<and> i < a \<and> j < b)"
  by (auto simp: valid_index_Cons)

lemma upt_3: "[0..<3] = [0, 1, 2]"
  by code_simp

lemma upt_4: "[0..<4] = [0, 1, 2, 3]"
  by code_simp

lemma less_3_cases: "d < (3::nat) \<Longrightarrow> d = 0 \<or> d = 1 \<or> d = 2"
  by arith

lemma meshgrid_3d:
  "np_meshgrid [np_arange n0, np_arange n1, np_arange n2]
     = [tabulate [n1, n0, n2] (\<lambda>idx. flat (np_arange n0) ! (idx ! 1)),
        tabulate [n1, n0, n2] (\<lambda>idx. flat (np_arange n1) ! (idx ! 0)),
        tabulate [n1, n0, n2] (\<lambda>idx. flat (np_arange n2) ! (idx ! 2))]"
proof -
  have l: "length [np_arange n0, np_arange n1, np_arange n2] = 3" by simp
  have s: "swap_pos 3 0 = 1" "swap_pos 3 (Suc 0) = 0" "swap_pos 3 2 = 2"
    by (simp_all add: swap_pos_def)
  have f: "map (\<lambda>x. length (flat x)) [np_arange n0, np_arange n1, np_arange n2] = [n0, n1, n2]"
    by (simp add: np_arange_def)
  show ?thesis
    unfolding np_meshgrid_def Let_def l f upt_3 by (simp add: s)
qed

lemma coordinate_grid_3d:
  "coordinate_grid [n0, n1, n2]
     = Inr (tabulate [3, n0, n1, n2] (\<lambda>idx. Finite (real (tl idx ! hd idx))))"
proof -
  let ?ms = "np_meshgrid [np_arange n0, np_arange n1, np_arange n2]"
  let ?st = "\<lparr>shape = [3, n1, n0, n2], flat = concat (map flat ?ms)\<rparr>"
  note ms = meshgrid_3d[of n0 n1 n2]
  have st: "np_asarray ?ms = Inr ?st"
    by (simp add: ms np_asarray_def)
  have tr: "np_transpose ?st [0, 2, 1, 3]
      = Inr (tabulate [3, n0, n1, n2] (\<lambda>idx. get ?st [idx ! 0, idx ! 2, idx ! 1, idx ! 3]))"
    by (simp add: np_transpose_def ndim_def upt_4) (simp add: eval_nat_numeral)
  have "tabulate [3, n0, n1, n2] (\<lambda>idx. get ?st [idx ! 0, idx ! 2, idx ! 1, idx ! 3])
      = tabulate [3, n0, n1, n2] (\<lambda>idx. Finite (real (tl idx ! hd idx)))"
  proof (rule tabulate_cong)
    fix idx assume "valid_index [3, n0, n1, n2] idx"
    then obtain d i j k where idx: "idx = [d, i, j, k]" and b: "d < 3" "i < n0" "j < n1" "k < n2"
      by (auto simp: valid_index4)
    have wf: "list_all wf_array ?ms" by (simp add: ms)
    have len: "length ?ms = 3" by (simp add: ms)
    have sh: "shape (?ms ! d) = [n1, n0, n2]" using less_3_cases[OF b(1)] by (auto simp: ms)
    have v: "valid_index (shape (?ms ! d)) [j, i, k]" using b sh by (simp add: valid_index3)
    have "get ?st [d, j, i, k] = get (?ms ! d) [j, i, k]"
      using get_stacked[OF st _ wf v] b(1) len by simp
    also have "\<dots> = Finite (real ([i, j, k] ! d))"
    proof -
      have g: "get (?ms ! 0) [j, i, k] = Finite (real i)"
        "get (?ms ! 1) [j, i, k] = Finite (real j)"
        "get (?ms ! 2) [j, i, k] = Finite (real k)"
        unfolding ms using b(2-) by (simp_all add: get_tabulate valid_index3 np_arange_def)
      show ?thesis using less_3_cases[OF b(1)] g by auto
    qed
    finally show "get ?st [idx ! 0, idx ! 2, idx ! 1, idx ! 3] = Finite (real (tl idx ! hd idx))"
      by (simp add: idx)
  qed
  with st tr show ?thesis by (simp add: coordinate_grid_def)
qed

lemma broadcast_depth_2d:
  assumes "broadcast_depth n f = Inr x" and "shape f = [a, b]" and "wf_array f"
  shows "x = tabulate [a, b, n] (\<lambda>idx. get f [idx ! 0, idx ! 1]) \<and> 0 < n"
proof -
  have n: "0 < n"
  proof (rule ccontr)
    assume "\<not> 0 < n"
    then have "n = 0" by simp
    with assms(1) show False
      by (simp add: broadcast_depth_def np_asarray_def np_transpose_def ndim_def)
  qed
  then obtain m where m: "n = Suc m" by (cases n) auto
  let ?st = "\<lparr>shape = [n, a, b], flat = concat (map flat (replicate n f))\<rparr>"
  have st: "np_asarray (replicate n f) = Inr ?st"
    by (simp add: m np_asarray_def assms(2) list_all_iff)
  have tr: "np_transpose ?st [1, 2, 0]
      = Inr (tabulate [a, b, n] (\<lambda>idx. get ?st [idx ! 2, idx ! 0, idx ! 1]))"
    by (simp add: np_transpose_def ndim_def upt_3) (simp add: eval_nat_numeral)
  have "tabulate [a, b, n] (\<lambda>idx. get ?st [idx ! 2, idx ! 0, idx ! 1])
      = tabulate [a, b, n] (\<lambda>idx. get f [idx ! 0, idx ! 1])"
  proof (rule tabulate_cong)
    fix idx assume "valid_index [a, b, n] idx"
    then obtain i j k where idx: "idx = [i, j, k]" and b: "i < a" "j < b" "k < n"
      by (auto simp: valid_index3)
    have "get ?st [k, i, j] = get (replicate n f ! k) [i, j]"
      using b assms(2,3) by (intro get_stacked[OF st]) (simp_all add: list_all_iff valid_index2)
    then show "get ?st [idx ! 2, idx ! 0, idx ! 1] = get f [idx ! 0, idx ! 1]"
      using b by (simp add: idx)
  qed
  with st tr assms(1) n show ?thesis by (simp add: broadcast_depth_def)
qed

lemma fold_fmax2_finite:
  "is_finite x \<Longrightarrow> list_all is_finite xs \<Longrightarrow> is_finite (fold fmax2 xs x)"
proof (induction xs arbitrary: x)
  case Nil
  then show ?case by simp
next
  case (Cons y ys)
  from Cons.prems have "is_finite (fmax2 y x)" by (cases x; cases y) simp_all
  with Cons show ?case by simp
qed

lemma np_max_finite:
  "np_max v = Inr m \<Longrightarrow> list_all is_finite (flat v) \<Longrightarrow> is_finite m"
  by (auto simp: np_max_def fold_fmax2_finite split: list.splits)

lemma is_finite_iff: "is_finite x \<longleftrightarrow> (\<exists>c. x = Finite c)"
  by (cases x) simp_all

lemma fdiv_finite: "is_finite x \<Longrightarrow> c \<noteq> 0 \<Longrightarrow> is_finite (fdiv x (Finite c))"
  by (cases x) simp_all

lemma fmul_zero: "is_finite x \<Longrightarrow> fmul x (Finite 0) = Finite 0"
  by (cases x) simp_all

lemma fadd_zero: "fadd (Finite c) (Finite 0) = Finite c"
  by simp

lemma list_all_tabulate:
  "list_all P (flat (tabulate s f)) \<longleftrightarrow> (\<forall>idx. valid_index s idx \<longrightarrow> P (f idx))"
  by (auto simp: tabulate_def list_all_iff set_indices)

lemma wf_np_map [simp]: "wf_array (np_map f v) \<longleftrightarrow> wf_array v"
  by (simp add: np_map_def wf_array_def)

lemma shape_np_map [simp]: "shape (np_map f v) = shape v"
  by (simp add: np_map_def)

lemma np_random_seed_Inr_full:
  "np_random_seed lib seed w = (Inr x, w') \<Longrightarrow> heap w' = heap w"
  by (auto simp: np_random_seed_def split: option.splits if_splits)

lemma direction_field_Inr:
  assumes a: "arr < length (heap w)" and s: "shape (heap w ! arr) = [n0, n1, n2]"
    and fin: "\<And>g idx. valid_index [n0, n1] idx
                \<Longrightarrow> is_finite (fst (random_field lib [n0, n1] alpha True g) idx)"
    and nz: "\<And>g. np_max (tabulate [n0, n1] (fst (random_field lib [n0, n1] alpha True g)))
                \<noteq> Inr (Finite 0)"
    and run: "direction_field lib arr alpha seed w = (Inr r, w')"
  shows "\<exists>f x. heap w' = heap w @ [f, x] \<and> r = Suc (length (heap w)) \<and> shape x = [n0, n1, n2]
           \<and> wf_array x \<and> list_all is_finite (flat x) \<and> 0 < n2"
proof -
  from run s obtain u w1 m x where
    sd: "np_random_seed lib seed w = (Inr u, w1)" and
    mx: "np_max (tabulate [n0, n1] (fst (random_field lib [n0, n1] alpha True (rng w1)))) = Inr m" and
    bd: "broadcast_depth n2
            (np_map (\<lambda>x. fdiv x m) (tabulate [n0, n1] (fst (random_field lib [n0, n1] alpha True (rng w1)))))
          = Inr x" and
    r: "r = Suc (length (heap w1))" and
    w': "heap w' = heap w1 @ [np_map (\<lambda>x. fdiv x m)
              (tabulate [n0, n1] (fst (random_field lib [n0, n1] alpha True (rng w1)))), x]"
    unfolding direction_field_def gaussian_random_field_def
    by (auto simp: inv_simps case_prod_unfold Let_def shape_last_def nth_append split: if_splits)
  let ?F = "tabulate [n0, n1] (fst (random_field lib [n0, n1] alpha True (rng w1)))"
  let ?F' = "np_map (\<lambda>x. fdiv x m) ?F"
  have h: "heap w1 = heap w" using sd by (rule np_random_seed_Inr_full)
  have fF: "list_all is_finite (flat ?F)" by (simp add: list_all_tabulate fin)
  from np_max_finite[OF mx fF] obtain c where c: "m = Finite c" by (auto simp: is_finite_iff)
  with mx nz[of "rng w1"] have c0: "c \<noteq> 0" by auto
  have fF': "list_all is_finite (flat ?F')"
    using fF c0 by (auto simp: np_map_def c list_all_iff fdiv_finite)
  have shF': "shape ?F' = [n0, n1]" and wfF': "wf_array ?F'"
    by simp_all
  from broadcast_depth_2d[OF bd shF' wfF']
  have x: "x = tabulate [n0, n1, n2] (\<lambda>idx. get ?F' [idx ! 0, idx ! 1])" and n2: "0 < n2" by auto
  have "list_all is_finite (flat x)"
    unfolding x list_all_tabulate
  proof (intro allI impI)
    fix idx assume "valid_index [n0, n1, n2] idx"
    then have "valid_index (shape ?F') [idx ! 0, idx ! 1]"
      by (auto simp: valid_index3 valid_index2 shF')
    from get_in_flat[OF wfF' this] fF' show "is_finite (get ?F' [idx ! 0, idx ! 1])"
      by (auto simp: list_all_iff)
  qed
  with x n2 r w' h show ?thesis by auto
qed

lemma map_fmul_zero:
  "list_all is_finite xs \<Longrightarrow> map (\<lambda>x. fmul x (Finite 0)) xs = replicate (length xs) (Finite 0)"
  by (induction xs) (simp_all add: fmul_zero)

lemma deformation_flow_Inr_zero:
  assumes a: "arr < length (heap w)" and s: "shape (heap w ! arr) = [n0, n1, n2]"
    and fin: "\<And>g idx. valid_index [n0, n1] idx
                \<Longrightarrow> is_finite (fst (random_field lib [n0, n1] alpha True g) idx)"
    and nz: "\<And>g. np_max (tabulate [n0, n1] (fst (random_field lib [n0, n1] alpha True g)))
                \<noteq> Inr (Finite 0)"
    and run: "deformation_flow lib arr (Finite 0) alpha seed w = (Inr r, w')"
  shows "\<exists>t. heap w' = heap w @ t @
              [\<lparr>shape = [3, n0, n1, n2], flat = replicate (3 * (n0 * n1 * n2)) (Finite 0)\<rparr>]
           \<and> r = length (heap w) + length t"
proof -
  from run obtain fx w1 fy w2 fz w3 v where
    d1: "direction_field lib arr alpha seed w = (Inr fx, w1)" and
    d2: "direction_field lib arr alpha (map_option (\<lambda>s. s + 2) seed) w1 = (Inr fy, w2)" and
    d3: "direction_field lib arr alpha (map_option (\<lambda>s. s + 4) seed) w2 = (Inr fz, w3)" and
    v: "np_asarray [heap w3 ! fx, heap w3 ! fy, heap w3 ! fz] = Inr v" and
    r: "r = length (heap w3)" and
    w': "heap w' = (heap w3 @ [v])[length (heap w3) := np_map (\<lambda>x. fmul x (Finite 0)) v]"
    unfolding deformation_flow_def
    by (auto simp: inv_simps nth_append)
  from direction_field_Inr[OF a s fin nz d1] obtain f1 x1 where
    1: "heap w1 = heap w @ [f1, x1]" "fx = Suc (length (heap w))" "shape x1 = [n0, n1, n2]"
       "wf_array x1" "list_all is_finite (flat x1)"
    by blast
  have a1: "arr < length (heap w1)" and s1: "shape (heap w1 ! arr) = [n0, n1, n2]"
    using a s 1(1) by (simp_all add: nth_append)
  from direction_field_Inr[OF a1 s1 fin nz d2] obtain f2 x2 where
    2: "heap w2 = heap w1 @ [f2, x2]" "fy = Suc (length (heap w1))" "shape x2 = [n0, n1, n2]"
       "wf_array x2" "list_all is_finite (flat x2)"
    by blast
  have a2: "arr < length (heap w2)" and s2: "shape (heap w2 ! arr) = [n0, n1, n2]"
    using a1 s1 2(1) by (simp_all add: nth_append)
  from direction_field_Inr[OF a2 s2 fin nz d3] obtain f3 x3 where
    3: "heap w3 = heap w2 @ [f3, x3]" "fz = Suc (length (heap w2))" "shape x3 = [n0, n1, n2]"
       "wf_array x3" "list_all is_finite (flat x3)"
    by blast
  have h3: "heap w3 = heap w @ [f1, x1, f2, x2, f3, x3]" using 1(1) 2(1) 3(1) by simp
  have x: "heap w3 ! fx = x1" "heap w3 ! fy = x2" "heap w3 ! fz = x3"
    using 1(1,2) 2(1,2) 3(1,2) by (simp_all add: nth_append)
  from v x 1(3) 2(3) 3(3) have
    vv: "v = \<lparr>shape = [3, n0, n1, n2], flat = flat x1 @ flat x2 @ flat x3\<rparr>"
    by (auto simp: np_asarray_def eval_nat_numeral)
  have len: "length (flat x1 @ flat x2 @ flat x3) = 3 * (n0 * n1 * n2)"
    using 1(3,4) 2(3,4) 3(3,4) by (simp add: wf_array_def)
  have "list_all is_finite (flat x1 @ flat x2 @ flat x3)" using 1(5) 2(5) 3(5) by simp
  from map_fmul_zero[OF this] len
  have "np_map (\<lambda>x. fmul x (Finite 0)) v
      = \<lparr>shape = [3, n0, n1, n2], flat = replicate (3 * (n0 * n1 * n2)) (Finite 0)\<rparr>"
    by (simp add: vv np_map_def)
  with w' have "heap w' = heap w3 @
      [\<lparr>shape = [3, n0, n1, n2], flat = replicate (3 * (n0 * n1 * n2)) (Finite 0)\<rparr>]"
    by simp
  with h3 r show ?thesis by (intro exI[of _ "[f1, x1, f2, x2, f3, x3]"]) simp
qed

declare indices.simps [simp del]

lemma map2_fadd_zero:
  "length xs = n \<Longrightarrow> list_all is_finite xs \<Longrightarrow> map2 fadd xs (replicate n (Finite 0)) = xs"
proof (induction xs arbitrary: n)
  case Nil
  then show ?case by simp
next
  case (Cons x xs)
  then obtain m where "n = Suc m" "length xs = m" by (cases n) auto
  moreover from Cons.prems obtain c where "x = Finite c" by (auto simp: is_finite_iff)
  ultimately show ?case using Cons by simp
qed

lemma length_flat_tabulate: "length (flat (tabulate s f)) = prod_list s"
  by (simp add: tabulate_def length_indices)

lemma reshape_grid:
  assumes "shape g = [3, n0, n1, n2]"
  shows "(case np_len g of Inl e \<Rightarrow> Inl e | Inr n \<Rightarrow> np_reshape g [int n, - 1])
           = Inr \<lparr>shape = [3, n0 * n1 * n2], flat = flat g\<rparr>"
proof -
  have "int (3 * (n0 * (n1 * n2))) div 3 = int (n0 * n1 * n2)" by (simp add: ac_simps)
  moreover have "int (3 * (n0 * (n1 * n2))) mod 3 = 0" by simp
  ultimately show ?thesis
    by (simp add: np_len_def np_reshape_def assms Let_def del: of_nat_mult)
qed

lemma indices_1d: "indices [n] = map (\<lambda>j. [j]) [0..<n]"
  by (simp add: comp_def indices.simps)

lemma nth_flat_index_indices:
  "j < prod_list s \<Longrightarrow> flat_index s (indices s ! j) = j"
proof -
  assume j: "j < prod_list s"
  then have "map (flat_index s) (indices s) ! j = [0..<prod_list s] ! j"
    by (simp only: flat_index_indices)
  then show ?thesis using j by (simp add: length_indices)
qed

lemma nth_indices_valid: "j < prod_list s \<Longrightarrow> valid_index s (indices s ! j)"
  using set_indices[of s] nth_mem[of j "indices s"] by (auto simp: length_indices)

lemma valid_index_length: "valid_index s idx \<Longrightarrow> length idx = length s"
  by (simp add: valid_index_def list_all2_lengthD)

lemma grid_column:
  assumes "d < length s" and "j < prod_list s"
  shows "get \<lparr>shape = [length s, prod_list s],
              flat = flat (tabulate (length s # s) (\<lambda>idx. Finite (real (tl idx ! hd idx))))\<rparr> [d, j]
         = Finite (real (indices s ! j ! d))"
proof -
  let ?G = "tabulate (length s # s) (\<lambda>idx. Finite (real (tl idx ! hd idx)))"
  let ?idx = "indices s ! j"
  have v: "valid_index s ?idx" using assms(2) by (rule nth_indices_valid)
  then have v4: "valid_index (length s # s) (d # ?idx)" using assms(1) by (auto simp: valid_index_Cons)
  have "get \<lparr>shape = [length s, prod_list s], flat = flat ?G\<rparr> [d, j] = flat ?G ! (d * prod_list s + j)"
    by (simp add: get_def)
  also have "\<dots> = flat ?G ! flat_index (length s # s) (d # ?idx)"
    using nth_flat_index_indices[OF assms(2)] by simp
  also have "\<dots> = get ?G (d # ?idx)" by (simp add: get_def del: flat_index.simps)
  also have "\<dots> = Finite (real (?idx ! d))" using v4 by (simp add: get_tabulate)
  finally show ?thesis .
qed

lemma resample_on_grid:
  "map (\<lambda>idx. F (map (\<lambda>d. get \<lparr>shape = [length s, prod_list s],
              flat = flat (tabulate (length s # s) (\<lambda>idx. Finite (real (tl idx ! hd idx))))\<rparr> (d # idx))
                      [0..<length s]))
     (indices [prod_list s])
   = map (\<lambda>idx. F (map (\<lambda>i. Finite (real i)) idx)) (indices s)"
proof -
  let ?L = "\<lparr>shape = [length s, prod_list s],
              flat = flat (tabulate (length s # s) (\<lambda>idx. Finite (real (tl idx ! hd idx))))\<rparr>"
  have "map (\<lambda>idx. F (map (\<lambda>d. get ?L (d # idx)) [0..<length s])) (indices [prod_list s])
      = map (\<lambda>j. F (map (\<lambda>d. get ?L [d, j]) [0..<length s])) [0..<prod_list s]"
    by (simp add: indices_1d comp_def)
  also have "\<dots> = map (\<lambda>j. F (map (\<lambda>i. Finite (real i)) (indices s ! j))) [0..<prod_list s]"
  proof (rule map_cong[OF refl])
    fix j assume "j \<in> set [0..<prod_list s]"
    then have j: "j < prod_list s" by simp
    have l: "length (indices s ! j) = length s"
      using nth_indices_valid[OF j] by (rule valid_index_length)
    have "map (\<lambda>d. get ?L [d, j]) [0..<length s]
        = map (\<lambda>d. Finite (real (indices s ! j ! d))) [0..<length s]"
      using j by (intro map_cong[OF refl]) (simp add: grid_column)
    also have "\<dots> = map (\<lambda>i. Finite (real i)) (map ((!) (indices s ! j)) [0..<length (indices s ! j)])"
      by (simp add: l comp_def)
    also have "\<dots> = map (\<lambda>i. Finite (real i)) (indices s ! j)"
      by (simp only: map_nth)
    finally show "F (map (\<lambda>d. get ?L [d, j]) [0..<length s])
        = F (map (\<lambda>i. Finite (real i)) (indices s ! j))" by simp
  qed
  also have "\<dots> = map (\<lambda>idx. F (map (\<lambda>i. Finite (real i)) idx))
                     (map ((!) (indices s)) [0..<length (indices s)])"
    by (simp add: length_indices comp_def)
  also have "\<dots> = map (\<lambda>idx. F (map (\<lambda>i. Finite (real i)) idx)) (indices s)"
    by (simp only: map_nth)
  finally show ?thesis .
qed

lemma deformation_locs_Inr_zero:
  assumes a: "arr < length (heap w)" and s: "shape (heap w ! arr) = [n0, n1, n2]"
    and fin: "\<And>g idx. valid_index [n0, n1] idx
                \<Longrightarrow> is_finite (fst (random_field lib [n0, n1] alpha True g) idx)"
    and nz: "\<And>g. np_max (tabulate [n0, n1] (fst (random_field lib [n0, n1] alpha True g)))
                \<noteq> Inr (Finite 0)"
    and run: "deformation_locs lib arr (Finite 0) alpha seed w = (Inr r, w')"
  shows "\<exists>t. heap w' = heap w @ t @
              [\<lparr>shape = [3, n0 * n1 * n2],
                flat = flat (tabulate [3, n0, n1, n2] (\<lambda>idx. Finite (real (tl idx ! hd idx))))\<rparr>]
           \<and> r = length (heap w) + length t"
proof -
  let ?G = "tabulate [3, n0, n1, n2] (\<lambda>idx. Finite (real (tl idx ! hd idx)))"
  let ?Z = "\<lparr>shape = [3, n0, n1, n2], flat = replicate (3 * (n0 * n1 * n2)) (Finite 0)\<rparr>"
  from run have "\<exists>flow w1 g g' l.
      deformation_flow lib arr (Finite 0) alpha seed w = (Inr flow, w1) \<and>
      coordinate_grid (shape (heap w1 ! arr)) = Inr g \<and>
      np_map2 fadd g ((heap w1 @ [g]) ! flow) = Inr g' \<and>
      (case np_len g' of Inl e \<Rightarrow> Inl e | Inr n \<Rightarrow> np_reshape g' [int n, - 1]) = Inr l \<and>
      r = Suc (length (heap w1)) \<and> heap w' = heap w1 @ [g', l]"
    unfolding deformation_locs_def
    by (auto simp: inv_simps cong: sum.case_cong)
  then obtain flow w1 g g' l where
    f: "deformation_flow lib arr (Finite 0) alpha seed w = (Inr flow, w1)" and
    g: "coordinate_grid (shape (heap w1 ! arr)) = Inr g" and
    m: "np_map2 fadd g ((heap w1 @ [g]) ! flow) = Inr g'" and
    l: "(case np_len g' of Inl e \<Rightarrow> Inl e | Inr n \<Rightarrow> np_reshape g' [int n, - 1]) = Inr l" and
    r: "r = Suc (length (heap w1))" and w': "heap w' = heap w1 @ [g', l]"
    by blast
  from deformation_flow_Inr_zero[OF a s fin nz f] obtain t where
    t: "heap w1 = heap w @ t @ [?Z]" "flow = length (heap w) + length t" by blast
  have "heap w1 ! arr = heap w ! arr" using a t(1) by (simp add: nth_append)
  with g s have gG: "g = ?G" by (simp add: coordinate_grid_3d)
  have z: "(heap w1 @ [?G]) ! flow = ?Z" using t by (simp add: nth_append)
  have lenG: "length (flat ?G) = 3 * (n0 * n1 * n2)"
    by (simp add: length_flat_tabulate ac_simps)
  have finG: "list_all is_finite (flat ?G)" by (simp add: list_all_tabulate)
  from m have g': "g' = ?G"
    unfolding gG z by (simp add: np_map2_def map2_fadd_zero[OF lenG finG])
  have "(case np_len ?G of Inl e \<Rightarrow> Inl e | Inr n \<Rightarrow> np_reshape ?G [int n, - 1])
          = Inr \<lparr>shape = [3, n0 * n1 * n2], flat = flat ?G\<rparr>"
    by (rule reshape_grid) simp
  with l have "l = \<lparr>shape = [3, n0 * n1 * n2], flat = flat ?G\<rparr>"
    unfolding g' by simp
  with w' r t g' show ?thesis
    by (intro exI[of _ "t @ [?Z, g']"]) simp
qed

lemma deformation_zero_result:
  assumes a: "arr < length (heap w)" and s: "shape (heap w ! arr) = [n0, n1, n2]"
    and fin: "\<And>g idx. valid_index [n0, n1] idx
                \<Longrightarrow> is_finite (fst (random_field lib [n0, n1] alpha True g) idx)"
    and nz: "\<And>g. np_max (tabulate [n0, n1] (fst (random_field lib [n0, n1] alpha True g)))
                \<noteq> Inr (Finite 0)"
    and run: "deformation lib arr (Finite 0) alpha order seed w = (Inr r, w')"
  shows "heap w' ! r = tabulate [n0, n1, n2]
           (\<lambda>idx. spline_at lib order (Finite 0) (heap w ! arr) (map (\<lambda>i. Finite (real i)) idx))"
proof -
  let ?S = "[n0, n1, n2]"
  let ?G = "tabulate [3, n0, n1, n2] (\<lambda>idx. Finite (real (tl idx ! hd idx)))"
  let ?L = "\<lparr>shape = [3, n0 * n1 * n2], flat = flat ?G\<rparr>"
  let ?A = "heap w ! arr"
  from run have "\<exists>locs w1 t v.
      deformation_locs lib arr (Finite 0) alpha seed w = (Inr locs, w1) \<and>
      map_coordinates lib (heap w1 ! arr) (heap w1 ! locs) order (Finite 0) = Inr t \<and>
      np_reshape t (map int (shape (heap w1 ! arr))) = Inr v \<and>
      r = Suc (length (heap w1)) \<and> heap w' = heap w1 @ [t, v]"
    unfolding deformation_def resample_def by (auto simp: inv_simps)
  then obtain locs w1 t v where
    l: "deformation_locs lib arr (Finite 0) alpha seed w = (Inr locs, w1)" and
    t: "map_coordinates lib (heap w1 ! arr) (heap w1 ! locs) order (Finite 0) = Inr t" and
    v: "np_reshape t (map int (shape (heap w1 ! arr))) = Inr v" and
    r: "r = Suc (length (heap w1))" and w': "heap w' = heap w1 @ [t, v]"
    by blast
  from deformation_locs_Inr_zero[OF a s fin nz l] obtain u where
    u: "heap w1 = heap w @ u @ [?L]" "locs = length (heap w) + length u" by blast
  have A: "heap w1 ! arr = ?A" using a u(1) by (simp add: nth_append)
  have L: "heap w1 ! locs = ?L" using u by (simp add: nth_append)
  have sv: "shape v = ?S" "flat v = flat t"
    using np_reshape_same_shape[OF v] A s by simp_all
  have ls: "length ?S = 3" "prod_list ?S = n0 * n1 * n2" by (simp_all add: ac_simps)
  from t have "t = tabulate [n0 * n1 * n2]
      (\<lambda>idx. spline_at lib order (Finite 0) ?A (map (\<lambda>d. get ?L (d # idx)) [0..<3]))"
    unfolding A L by (simp add: map_coordinates_def ndim_def s upt_3 numeral_2_eq_2 split: if_splits)
  then have "flat t = map (\<lambda>idx. spline_at lib order (Finite 0) ?A
                 (map (\<lambda>d. get ?L (d # idx)) [0..<3])) (indices [n0 * n1 * n2])"
    by (simp add: tabulate_def)
  also have "\<dots> = map (\<lambda>idx. spline_at lib order (Finite 0) ?A (map (\<lambda>i. Finite (real i)) idx))
                     (indices ?S)"
    using resample_on_grid[of "spline_at lib order (Finite 0) ?A" ?S] unfolding ls by simp
  finally have "v = tabulate ?S
      (\<lambda>idx. spline_at lib order (Finite 0) ?A (map (\<lambda>i. Finite (real i)) idx))"
    using sv by (simp add: tabulate_def)
  moreover have "heap w' ! r = v" using w' r by (simp add: nth_append)
  ultimately show ?thesis by simp
qed

lemma np_max_returns: "flat v \<noteq> [] \<Longrightarrow> \<exists>m. np_max v = Inr m"
  by (cases "flat v") (simp_all add: np_max_def)

lemma broadcast_depth_returns:
  assumes "0 < n" and "length (shape f) = 2"
  shows "\<exists>x. broadcast_depth n f = Inr x"
proof -
  from assms(1) obtain k where k: "n = Suc k" by (cases n) auto
  show ?thesis
    using assms(2)
    by (simp add: broadcast_depth_def np_asarray_def np_transpose_def ndim_def k list_all_iff)
qed

lemma direction_field_returns:
  assumes s: "shape (heap w ! arr) = [n0, n1, n2]" and pos: "0 < n0" "0 < n1" "0 < n2"
    and v: "valid_seed seed"
  shows "\<exists>r w'. direction_field lib arr alpha seed w = (Inr r, w')"
proof -
  from np_random_seed_returns[OF v] obtain w1 where
    sd: "np_random_seed lib seed w = (Inr (), w1)" by blast
  let ?F = "tabulate [n0, n1] (fst (random_field lib [n0, n1] alpha True (rng w1)))"
  have "length (flat ?F) = n0 * n1" by (simp add: length_flat_tabulate)
  with pos have "flat ?F \<noteq> []" by auto
  from np_max_returns[OF this] obtain m where m: "np_max ?F = Inr m" by blast
  have "length (shape (np_map (\<lambda>x. fdiv x m) ?F)) = 2" by simp
  from broadcast_depth_returns[OF pos(3) this] obtain x where
    x: "broadcast_depth n2 (np_map (\<lambda>x. fdiv x m) ?F) = Inr x" by blast
  show ?thesis
    unfolding direction_field_def gaussian_random_field_def
    by (simp add: inv_simps sd s m x case_prod_unfold Let_def shape_last_def nth_append)
qed

lemma valid_seed_plus:
  "valid_seed seed \<Longrightarrow> valid_seed (map_option (\<lambda>s. s + 4) seed)
     \<Longrightarrow> valid_seed (map_option (\<lambda>s. s + 2) seed)"
  by (auto simp: valid_seed_def split: option.splits)

lemma deformation_flow_returns:
  assumes a: "arr < length (heap w)" and s: "shape (heap w ! arr) = [n0, n1, n2]"
    and fin: "\<And>g idx. valid_index [n0, n1] idx
                \<Longrightarrow> is_finite (fst (random_field lib [n0, n1] alpha True g) idx)"
    and nz: "\<And>g. np_max (tabulate [n0, n1] (fst (random_field lib [n0, n1] alpha True g)))
                \<noteq> Inr (Finite 0)"
    and pos: "0 < n0" "0 < n1" "0 < n2"
    and v: "valid_seed seed" "valid_seed (map_option (\<lambda>s. s + 4) seed)"
  shows "\<exists>r w'. deformation_flow lib arr md alpha seed w = (Inr r, w')"
proof -
  note v2 = valid_seed_plus[OF v]
  from direction_field_returns[OF s pos v(1)] obtain rx w1 where
    1: "direction_field lib arr alpha seed w = (Inr rx, w1)" by blast
  from direction_field_Inr[OF a s fin nz 1] obtain f1 x1 where
    h1: "heap w1 = heap w @ [f1, x1]" "rx = Suc (length (heap w))" "shape x1 = [n0, n1, n2]"
    by blast
  have a1: "arr < length (heap w1)" and s1: "shape (heap w1 ! arr) = [n0, n1, n2]"
    using a s h1(1) by (simp_all add: nth_append)
  from direction_field_returns[OF s1 pos v2] obtain ry w2 where
    2: "direction_field lib arr alpha (map_option (\<lambda>s. s + 2) seed) w1 = (Inr ry, w2)" by blast
  from direction_field_Inr[OF a1 s1 fin nz 2] obtain f2 x2 where
    h2: "heap w2 = heap w1 @ [f2, x2]" "ry = Suc (length (heap w1))" "shape x2 = [n0, n1, n2]"
    by blast
  have a2: "arr < length (heap w2)" and s2: "shape (heap w2 ! arr) = [n0, n1, n2]"
    using a1 s1 h2(1) by (simp_all add: nth_append)
  from direction_field_returns[OF s2 pos v(2)] obtain rz w3 where
    3: "direction_field lib arr alpha (map_option (\<lambda>s. s + 4) seed) w2 = (Inr rz, w3)" by blast
  from direction_field_Inr[OF a2 s2 fin nz 3] obtain f3 x3 where
    h3: "heap w3 = heap w2 @ [f3, x3]" "rz = Suc (length (heap w2))" "shape x3 = [n0, n1, n2]"
    by blast
  have g: "heap w3 ! rx = x1" "heap w3 ! ry = x2" "heap w3 ! rz = x3"
    using h1 h2 h3 by (simp_all add: nth_append)
  have "np_asarray [x1, x2, x3]
          = Inr \<lparr>shape = 3 # shape x1, flat = concat (map flat [x1, x2, x3])\<rparr>"
    using h1(3) h2(3) h3(3) by (simp add: np_asarray_def)
  then show ?thesis
    unfolding deformation_flow_def
    by (simp add: inv_simps 1 2 3 g)
qed

lemma deformation_returns_zero:
  assumes a: "arr < length (heap w)" and s: "shape (heap w ! arr) = [n0, n1, n2]"
    and fin: "\<And>g idx. valid_index [n0, n1] idx
                \<Longrightarrow> is_finite (fst (random_field lib [n0, n1] alpha True g) idx)"
    and nz: "\<And>g. np_max (tabulate [n0, n1] (fst (random_field lib [n0, n1] alpha True g)))
                \<noteq> Inr (Finite 0)"
    and pos: "0 < n0" "0 < n1" "0 < n2"
    and v: "valid_seed seed" "valid_seed (map_option (\<lambda>s. s + 4) seed)"
    and o: "0 \<le> order" "order \<le> 5"
  shows "\<exists>r w'. deformation lib arr (Finite 0) alpha order seed w = (Inr r, w')"
proof -
  let ?G = "tabulate [3, n0, n1, n2] (\<lambda>idx. Finite (real (tl idx ! hd idx)))"
  let ?Z = "\<lparr>shape = [3, n0, n1, n2], flat = replicate (3 * (n0 * n1 * n2)) (Finite 0)\<rparr>"
  let ?L = "\<lparr>shape = [3, n0 * n1 * n2], flat = flat ?G\<rparr>"
  from deformation_flow_returns[OF a s fin nz pos v] obtain flow w1 where
    f: "deformation_flow lib arr (Finite 0) alpha seed w = (Inr flow, w1)" by blast
  from deformation_flow_Inr_zero[OF a s fin nz f] obtain t where
    t: "heap w1 = heap w @ t @ [?Z]" "flow = length (heap w) + length t" by blast
  have A: "heap w1 ! arr = heap w ! arr" using a t(1) by (simp add: nth_append)
  have cg: "coordinate_grid (shape (heap w1 ! arr)) = Inr ?G"
    unfolding A s by (rule coordinate_grid_3d)
  have z: "(heap w1 @ [?G]) ! flow = ?Z" using t by (simp add: nth_append)
  have lenG: "length (flat ?G) = 3 * (n0 * n1 * n2)"
    by (simp add: length_flat_tabulate ac_simps)
  have finG: "list_all is_finite (flat ?G)" by (simp add: list_all_tabulate)
  have m: "np_map2 fadd ?G ?Z = Inr ?G"
    by (simp add: np_map2_def map2_fadd_zero[OF lenG finG])
  have rs: "(case np_len ?G of Inl e \<Rightarrow> Inl e | Inr n \<Rightarrow> np_reshape ?G [int n, - 1]) = Inr ?L"
    by (rule reshape_grid) simp
  have l: "deformation_locs lib arr (Finite 0) alpha seed w
             = (Inr (Suc (length (heap w1))), w1\<lparr>heap := heap w1 @ [?G, ?L]\<rparr>)"
    unfolding deformation_locs_def
    by (simp add: inv_simps f cg z m rs cong: sum.case_cong)
  have A2: "(heap w1 @ [?G, ?L]) ! arr = heap w ! arr" using a t(1) by (simp add: nth_append)
  have L2: "(heap w1 @ [?G, ?L]) ! Suc (length (heap w1)) = ?L" by (simp add: nth_append)
  obtain tr where tr: "map_coordinates lib (heap w ! arr) ?L order (Finite 0) = Inr tr"
    "shape tr = [n0 * n1 * n2]"
    using o by (simp add: map_coordinates_def ndim_def s)
  have "\<exists>v. np_reshape tr [int n0, int n1, int n2] = Inr v"
    using tr(2) by (simp add: np_reshape_def Let_def ac_simps)
  then obtain v where v: "np_reshape tr [int n0, int n1, int n2] = Inr v" by blast
  have T2: "(heap w1 @ [?G, ?L, tr]) ! Suc (Suc (length (heap w1))) = tr"
    by (simp add: nth_append)
  show ?thesis
    unfolding deformation_def resample_def
    by (simp add: inv_simps l A2 L2 T2 s tr v)
qed

text \<open>
  Claim C9. For every three-dimensional array \<open>A\<close>, every seed and every spline order,
  \<open>deformation(A, max_displacement=0)\<close> resamples \<open>A\<close> on the identity coordinate grid:
  line 146 scales the displacement field to zero, so that the coordinates handed to
  \<open>map_coordinates\<close> are the grid points \<open>(i, j, k)\<close> of \<open>A\<close> themselves, and whenever the
  call returns, the result is \<open>A\<close> interpolated at its own grid points. It is \<open>A\<close> itself
  when the interpolation reproduces \<open>A\<close> at its grid points. The call does return when
  the array is not empty, the order is in \<open>[0, 5]\<close> and \<open>seed\<close> and \<open>seed + 4\<close> are seeds
  that \<open>np.random.seed\<close> accepts. The random fields are those of
  \<open>gaussian_random_field\<close>: they are taken to be finite, with a maximum that is not
  zero, since lines 131, 137 and 143 divide by it.
\<close>

theorem zero_displacement_identity_grid:
  assumes "arr < length (heap w)" and "shape (heap w ! arr) = [n0, n1, n2]"
    and "\<And>g idx. valid_index [n0, n1] idx
           \<Longrightarrow> is_finite (fst (random_field lib [n0, n1] alpha True g) idx)"
    and "\<And>g. np_max (tabulate [n0, n1] (fst (random_field lib [n0, n1] alpha True g)))
           \<noteq> Inr (Finite 0)"
  shows "(\<forall>r w'. deformation lib arr (Finite 0) alpha order seed w = (Inr r, w') \<longrightarrow>
            heap w' ! r = tabulate [n0, n1, n2]
              (\<lambda>idx. spline_at lib order (Finite 0) (heap w ! arr) (map (\<lambda>i. Finite (real i)) idx))
            \<and> (wf_array (heap w ! arr)
                 \<and> (\<forall>idx. valid_index [n0, n1, n2] idx \<longrightarrow>
                       spline_at lib order (Finite 0) (heap w ! arr) (map (\<lambda>i. Finite (real i)) idx)
                         = get (heap w ! arr) idx)
               \<longrightarrow> heap w' ! r = heap w ! arr))
       \<and> (0 < n0 \<and> 0 < n1 \<and> 0 < n2 \<and> 0 \<le> order \<and> order \<le> 5
            \<and> valid_seed seed \<and> valid_seed (map_option (\<lambda>s. s + 4) seed)
          \<longrightarrow> (\<exists>r w'. deformation lib arr (Finite 0) alpha order seed w = (Inr r, w')))"
proof -
  let ?A = "heap w ! arr"
  let ?K = "\<lambda>idx. spline_at lib order (Finite 0) ?A (map (\<lambda>i. Finite (real i)) idx)"
  have 1: "heap w' ! r = tabulate [n0, n1, n2] ?K"
    if "deformation lib arr (Finite 0) alpha order seed w = (Inr r, w')" for r w'
    using assms that by (rule deformation_zero_result)
  have 2: "tabulate [n0, n1, n2] ?K = ?A"
    if wf: "wf_array ?A" and k: "\<forall>idx. valid_index [n0, n1, n2] idx \<longrightarrow> ?K idx = get ?A idx"
  proof -
    have "tabulate [n0, n1, n2] ?K = tabulate [n0, n1, n2] (get ?A)"
      using k by (intro tabulate_cong) simp
    also have "\<dots> = ?A" using tabulate_get[OF wf] assms(2) by simp
    finally show ?thesis .
  qed
  have 3: "\<exists>r w'. deformation lib arr (Finite 0) alpha order seed w = (Inr r, w')"
    if "0 < n0" "0 < n1" "0 < n2" "0 \<le> order" "order \<le> 5"
      "valid_seed seed" "valid_seed (map_option (\<lambda>s. s + 4) seed)"
    by (rule deformation_returns_zero[OF assms that(1,2,3,6,7,4,5)])
  from 1 2 3 show ?thesis by (simp del: valid_index_Nil)
qed

theorem zero_displacement_identity_grid_witness:
  "outcome (deformation example_lib 0 (Finite 0) 3 3 (Some 0) (example_world [arange_array [2, 3, 2]]))
     = Inr (arange_array [2, 3, 2])"
proof -
  let ?A = "arange_array [2, 3, 2]"
  let ?w = "example_world [?A]"
  have a: "0 < length (heap ?w)" by (simp add: example_world_def)
  have s: "shape (heap ?w ! 0) = [2, 3, 2]" by (simp add: example_world_def arange_array_def)
  have fin: "is_finite (fst (random_field example_lib [2, 3] 3 True g) idx)" for g idx
    by (simp add: example_lib_def)
  have "np_max (tabulate [2, 3] (\<lambda>idx. if idx ! 1 = (4::nat) then Finite (- 2) else Finite (1 / 2)))
          = Inr (Finite (1 / 2))"
    by code_simp
  then have nz: "np_max (tabulate [2, 3] (fst (random_field example_lib [2, 3] 3 True g)))
          \<noteq> Inr (Finite 0)" for g
    by (simp add: example_lib_def)
  have v: "valid_seed (Some 0)" "valid_seed (map_option (\<lambda>s. s + 4) (Some 0))"
    by (simp_all add: valid_seed_def)
  have k: "tabulate [2, 3, 2]
             (\<lambda>idx. spline_at example_lib 3 (Finite 0) ?A (map (\<lambda>i. Finite (real i)) idx)) = ?A"
    by code_simp
  note t = zero_displacement_identity_grid[where lib = example_lib and arr = 0 and w = ?w
      and alpha = 3 and order = 3 and seed = "Some 0", OF a s fin nz]
  from t v obtain r w' where
    run: "deformation example_lib 0 (Finite 0) 3 3 (Some 0) ?w = (Inr r, w')" by auto
  with t have "heap w' ! r = tabulate [2, 3, 2]
      (\<lambda>idx. spline_at example_lib 3 (Finite 0) (heap ?w ! 0) (map (\<lambda>i. Finite (real i)) idx))"
    by blast
  also have "heap ?w ! 0 = ?A" by (simp add: example_world_def)
  finally show ?thesis using run k by (simp add: outcome_def)
qed

end
